theory Spec2Isabelle
  imports Main "HOL-Library.AList" "HOL-Library.Multiset"
begin

section \<open>The configuration document\<close>

text \<open>
  The form is described by a JSON document that \<^verbatim>\<open>loadConfig\<close> fetches and parses.
  Its objects become records. A member that the code tests for presence before it
  reads it (\<^verbatim>\<open>field.permissions\<close>, \<^verbatim>\<open>field.visibleIf\<close>, \<^verbatim>\<open>section.order || 0\<close>, ...)
  is an \<open>option\<close>: \<open>None\<close> stands for a missing member and for \<^verbatim>\<open>null\<close>.
  Strings are \<open>string\<close>; the empty string is the one falsy string of JavaScript.
  Section orders are integers (\<open>int\<close>).
\<close>

record permissions =
  roles :: "string list option"

record visibleIf =
  vi_field :: string
  vi_equals :: string

record fieldSpec =
  f_id :: string
  f_label :: string
  f_type :: "string option"
  f_required :: bool
  f_placeholder :: "string option"
  f_helpText :: "string option"
  f_options :: "string list option"
  f_rows :: "nat option"
  f_permissions :: "permissions option"
  f_visibleIf :: "visibleIf option"

record sectionSpec =
  s_label :: string
  s_order :: "int option"
  s_helpText :: "string option"
  s_fields :: "fieldSpec list option"

record layout =
  showSectionNumbers :: bool

record langData =
  l_title :: "string option"

record formConfig =
  cfg_title :: string
  cfg_description :: string
  cfg_languages :: "(string \<times> langData) list option"
  cfg_layout :: "layout option"
  cfg_sections :: "sectionSpec list"

text \<open>\<^verbatim>\<open>if (x)\<close> on an optional string: present and not empty.\<close>

definition truthy :: "string option \<Rightarrow> bool" where
  "truthy x = (case x of None \<Rightarrow> False | Some s \<Rightarrow> s \<noteq> [])"

text \<open>\<^verbatim>\<open>x || d\<close> on an optional string.\<close>

definition or_else :: "string option \<Rightarrow> string \<Rightarrow> string" where
  "or_else x d = (case x of None \<Rightarrow> d | Some s \<Rightarrow> if s = [] then d else s)"


section \<open>The page\<close>

text \<open>
  The elements the code creates, as the tree it builds.  A form control carries the
  attributes \<^verbatim>\<open>createField\<close> sets, its class list, the text a script wrote into it
  (\<open>ctl_textContent\<close>, empty unless a script writes it) and its live state: the text
  value of an \<^verbatim>\<open>input\<close> or \<^verbatim>\<open>textarea\<close> (\<open>ctl_text\<close>) and whether the user has edited
  it (\<open>ctl_dirty\<close>), the index of the chosen option of a \<^verbatim>\<open>select\<close> (\<open>ctl_selected\<close>),
  the checkedness of a checkbox or radio button (\<open>ctl_checked\<close>), the name of the file
  chosen in a file input (\<open>ctl_file\<close>), and whether the platform holds what was
  entered for unusable under the rules of the input kind (\<open>ctl_badInput\<close>: a half-typed
  date, a mistyped e-mail address or URL, a number off the step).
\<close>

datatype tag = INPUT | SELECT | TEXTAREA

record control =
  ctl_tag :: tag
  ctl_type :: "string option"
  ctl_rows :: "nat option"
  ctl_options :: "string list"
  ctl_id :: string
  ctl_name :: string
  ctl_placeholder :: "string option"
  ctl_required :: bool
  ctl_classes :: "string list"
  ctl_textContent :: string
  ctl_text :: string
  ctl_dirty :: bool
  ctl_selected :: nat
  ctl_checked :: bool
  ctl_file :: "string option"
  ctl_badInput :: bool

text \<open>
  What the platform makes of the \<^verbatim>\<open>type\<close> attribute of an \<^verbatim>\<open>input\<close>: the attribute is
  matched, ignoring ASCII case, against the input kinds of HTML; a string that is none
  of them leaves the element in the Text state.
\<close>

definition ascii_lower :: "char \<Rightarrow> char" where
  "ascii_lower c =
     (case map_of (zip ''ABCDEFGHIJKLMNOPQRSTUVWXYZ'' ''abcdefghijklmnopqrstuvwxyz'') c of
        None \<Rightarrow> c
      | Some l \<Rightarrow> l)"

definition input_kinds :: "string list" where
  "input_kinds =
     [''hidden'', ''text'', ''search'', ''tel'', ''url'', ''email'', ''password'', ''date'',
      ''month'', ''week'', ''time'', ''datetime-local'', ''number'', ''range'', ''color'',
      ''checkbox'', ''radio'', ''file'', ''submit'', ''image'', ''reset'', ''button'']"

definition input_type_state :: "string option \<Rightarrow> string" where
  "input_type_state a =
     (case a of
        None \<Rightarrow> ''text''
      | Some t \<Rightarrow> if map ascii_lower t \<in> set input_kinds then map ascii_lower t else ''text'')"

definition input_kind :: "control \<Rightarrow> string" where
  "input_kind c = input_type_state (ctl_type c)"

text \<open>
  The input kinds by what the platform does with them.  The kinds of \<open>value_kinds\<close>
  hold a value of their own that the user edits; to those of \<open>required_kinds\<close> among
  them the \<^verbatim>\<open>required\<close> attribute applies, and those of \<open>typed_kinds\<close> can hold an entry
  that breaks a rule of the kind.  A checkbox and a radio button hold a checkedness;
  the four button kinds and \<^verbatim>\<open>hidden\<close> hold nothing a user can change; \<^verbatim>\<open>file\<close> holds the
  chosen file.
\<close>

definition value_kinds :: "string list" where
  "value_kinds =
     [''text'', ''search'', ''tel'', ''url'', ''email'', ''password'', ''date'', ''month'',
      ''week'', ''time'', ''datetime-local'', ''number'', ''range'', ''color'']"

definition required_kinds :: "string list" where
  "required_kinds =
     [''text'', ''search'', ''tel'', ''url'', ''email'', ''password'', ''date'', ''month'',
      ''week'', ''time'', ''datetime-local'', ''number'']"

definition typed_kinds :: "string list" where
  "typed_kinds =
     [''url'', ''email'', ''date'', ''month'', ''week'', ''time'', ''datetime-local'', ''number'']"

definition checked_kinds :: "string list" where
  "checked_kinds = [''checkbox'', ''radio'']"

definition button_kinds :: "string list" where
  "button_kinds = [''submit'', ''image'', ''reset'', ''button'']"

text \<open>
  \<^verbatim>\<open>control.value\<close>.  A \<^verbatim>\<open>select\<close> reports the value of its selected option, and the
  empty string when no option is selected, which is the case exactly when it has no
  options: the platform selects the first option of a drop-down by default.  A
  \<^verbatim>\<open>textarea\<close> and an \<^verbatim>\<open>input\<close> of a kind with a value of its own report that value.  A
  checkbox and a radio button report their \<^verbatim>\<open>value\<close> attribute, which the code does not
  set: the platform's \<^verbatim>\<open>on\<close>, checked or not.  A file input reports the name of the
  chosen file behind the platform's fixed prefix (drive \<^verbatim>\<open>C:\<close>, directory \<^verbatim>\<open>fakepath\<close>),
  or the empty string.  A hidden input and a
  button report their \<^verbatim>\<open>value\<close> attribute too; it is not set, which gives the empty
  string.
\<close>

definition value_of :: "control \<Rightarrow> string" where
  "value_of c =
     (case ctl_tag c of
        SELECT \<Rightarrow> (if ctl_selected c < length (ctl_options c)
                   then ctl_options c ! ctl_selected c else [])
      | TEXTAREA \<Rightarrow> ctl_text c
      | INPUT \<Rightarrow>
          if input_kind c \<in> set value_kinds then ctl_text c
          else if input_kind c \<in> set checked_kinds then ''on''
          else if input_kind c = ''file'' then
            (case ctl_file c of
               None \<Rightarrow> []
             | Some f \<Rightarrow> ''C:'' @ [CHR 0x5C] @ ''fakepath'' @ [CHR 0x5C] @ f)
          else [])"

text \<open>\<^verbatim>\<open>document.createElement(tag)\<close> for the three control tags.\<close>

definition createControl :: "tag \<Rightarrow> control" where
  "createControl t =
     \<lparr>ctl_tag = t, ctl_type = None, ctl_rows = None, ctl_options = [], ctl_id = [],
      ctl_name = [], ctl_placeholder = None, ctl_required = False, ctl_classes = [],
      ctl_textContent = [], ctl_text = [], ctl_dirty = False, ctl_selected = 0,
      ctl_checked = False, ctl_file = None, ctl_badInput = False\<rparr>"

text \<open>
  \<^verbatim>\<open>input.type = t\<close> on the new element.  The attribute is set, and the platform brings
  the value, so far empty, in line with the new kind: to \<^verbatim>\<open>50\<close>, the middle of the
  default range from 0 to 100, for \<^verbatim>\<open>range\<close>; to \<^verbatim>\<open>#000000\<close> for \<^verbatim>\<open>color\<close>; it stays empty
  for every other kind.
\<close>

definition default_value :: "string \<Rightarrow> string" where
  "default_value k = (if k = ''range'' then ''50'' else if k = ''color'' then ''#000000'' else [])"

definition set_type :: "string \<Rightarrow> control \<Rightarrow> control" where
  "set_type t c = c\<lparr>ctl_type := Some t, ctl_text := default_value (input_type_state (Some t))\<rparr>"

text \<open>
  The \<^verbatim>\<open>label\<close> of a field: its \<^verbatim>\<open>for\<close> attribute, its text, and whether the
  \<^verbatim>\<open><span class="required">*</span>\<close> marker was appended.
\<close>

record label_el =
  lbl_for :: string
  lbl_text :: string
  lbl_required :: bool

text \<open>
  The \<^verbatim>\<open>div.field\<close> wrapper of one field: its class list, its \<^verbatim>\<open>dataset\<close>
  (\<open>fe_fieldId\<close>, \<open>fe_visibleIfField\<close>, \<open>fe_visibleIfEquals\<close>), its children (label,
  control, help text; each present or not) and its inline \<^verbatim>\<open>style.display\<close>.
\<close>

record field_el =
  fe_classes :: "string list"
  fe_fieldId :: string
  fe_visibleIfField :: "string option"
  fe_visibleIfEquals :: "string option"
  fe_label :: "label_el option"
  fe_control :: "control option"
  fe_help :: "string option"
  fe_display :: string

section \<open>createField\<close>

text \<open>
  The permission test of \<^verbatim>\<open>createField\<close>:
  \<^verbatim>\<open>field.permissions && (!field.permissions.roles || !field.permissions.roles.includes(userRole))\<close>.
  \<^verbatim>\<open>includes\<close> compares with strict equality, on strings character by character.
\<close>

definition permission_denied :: "fieldSpec \<Rightarrow> string \<Rightarrow> bool" where
  "permission_denied field userRole =
     (case f_permissions field of
        None \<Rightarrow> False
      | Some p \<Rightarrow> (case roles p of None \<Rightarrow> True | Some rs \<Rightarrow> userRole \<notin> set rs))"

text \<open>
  The \<^verbatim>\<open>switch (field.type)\<close>: a \<^verbatim>\<open>textarea\<close>, a \<^verbatim>\<open>select\<close> with one option per
  entry of \<^verbatim>\<open>field.options || []\<close>, and in every other case (the labels \<^verbatim>\<open>'date'\<close>,
  \<^verbatim>\<open>'time'\<close>, \<^verbatim>\<open>'text'\<close> and \<^verbatim>\<open>default\<close> share one body) an \<^verbatim>\<open>input\<close> whose type is
  set to \<^verbatim>\<open>field.type || 'text'\<close>.
\<close>

definition buildInput :: "fieldSpec \<Rightarrow> control" where
  "buildInput field =
     (if f_type field = Some ''textarea'' then
        (createControl TEXTAREA)
          \<lparr>ctl_rows := (case f_rows field of
                          None \<Rightarrow> None
                        | Some n \<Rightarrow> if n = 0 then None else Some n)\<rparr>
      else if f_type field = Some ''select'' then
        (createControl SELECT)
          \<lparr>ctl_options := (case f_options field of None \<Rightarrow> [] | Some os \<Rightarrow> os)\<rparr>
      else
        set_type (or_else (f_type field) ''text'') (createControl INPUT))"

definition createField :: "fieldSpec \<Rightarrow> string \<Rightarrow> field_el" where
  "createField field userRole =
     (let wrapper =
            \<lparr>fe_classes = [''field''], fe_fieldId = f_id field,
             fe_visibleIfField = None, fe_visibleIfEquals = None,
             fe_label = None, fe_control = None, fe_help = None, fe_display = []\<rparr>
      in if permission_denied field userRole then
           wrapper\<lparr>fe_classes := fe_classes wrapper @ [''permission-hidden'']\<rparr>
         else
           let label = \<lparr>lbl_for = f_id field, lbl_text = f_label field,
                        lbl_required = f_required field\<rparr>;
               input = (buildInput field)
                         \<lparr>ctl_id := f_id field, ctl_name := f_id field,
                          ctl_placeholder := (if truthy (f_placeholder field)
                                              then f_placeholder field else None),
                          ctl_required := f_required field\<rparr>
           in wrapper
                \<lparr>fe_label := Some label, fe_control := Some input,
                 fe_help := (if truthy (f_helpText field) then f_helpText field else None),
                 fe_visibleIfField := map_option vi_field (f_visibleIf field),
                 fe_visibleIfEquals := map_option vi_equals (f_visibleIf field)\<rparr>)"

text \<open>A single-line text input: an \<^verbatim>\<open>input\<close> element in the Text state.\<close>

definition is_text_input :: "control \<Rightarrow> bool" where
  "is_text_input c = (ctl_tag c = INPUT \<and> input_type_state (ctl_type c) = ''text'')"

text \<open>The type variants the specification names.\<close>

definition recognized_type :: "string option \<Rightarrow> bool" where
  "recognized_type t =
     (t \<in> {Some ''text'', Some ''textarea'', Some ''select'', Some ''date'', Some ''time''})"

text \<open>
  The role set of a permissions object; an object without \<^verbatim>\<open>roles\<close> allows no role.
\<close>

definition role_set :: "permissions \<Rightarrow> string set" where
  "role_set p = (case roles p of None \<Rightarrow> {} | Some rs \<Rightarrow> set rs)"

text \<open>
  The inert placeholder of a suppressed field: it carries the marker class and has
  no child and no visibility metadata.
\<close>

definition is_placeholder :: "field_el \<Rightarrow> bool" where
  "is_placeholder w =
     (''permission-hidden'' \<in> set (fe_classes w) \<and> fe_control w = None \<and>
      fe_label w = None \<and> fe_help w = None \<and>
      fe_visibleIfField w = None \<and> fe_visibleIfEquals w = None)"

section \<open>renderForm: sections and fields\<close>

text \<open>
  A \<^verbatim>\<open>section\<close> element and its children in document order: the \<^verbatim>\<open>h3.section-title\<close>
  heading, the optional \<^verbatim>\<open>p.section-help\<close>, and the field wrappers.
\<close>

datatype section_child = SectionTitle string | SectionHelp string | FieldEl field_el

record section_el =
  se_className :: string
  se_children :: "section_child list"

text \<open>
  The validation summary that \<^verbatim>\<open>createValidationSummary\<close> creates, and the children of
  the \<^verbatim>\<open>form\<close> element in document order.
\<close>

record summary_el =
  sm_id :: string
  sm_classes :: "string list"
  sm_text :: string

datatype form_child = SectionEl section_el | SubmitButton string | SummaryEl summary_el

text \<open>
  \<^verbatim>\<open>(a, b) => (a.order || 0) - (b.order || 0)\<close>, the comparator of the section sort.
\<close>

definition order_or_0 :: "sectionSpec \<Rightarrow> int" where
  "order_or_0 s = (case s_order s of None \<Rightarrow> 0 | Some n \<Rightarrow> n)"

definition compare_order :: "sectionSpec \<Rightarrow> sectionSpec \<Rightarrow> int" where
  "compare_order a b = order_or_0 a - order_or_0 b"

text \<open>
  \<^verbatim>\<open>Array.prototype.sort\<close> with a comparator.  The language requires the sort to be
  stable; for a comparator that is a consistent ordering the result is then
  determined, and it is computed here by insertion: an element is put before the
  first later element it does not compare greater than.
\<close>

fun insert_by :: "('a \<Rightarrow> 'a \<Rightarrow> int) \<Rightarrow> 'a \<Rightarrow> 'a list \<Rightarrow> 'a list" where
  "insert_by cmp x [] = [x]"
| "insert_by cmp x (y # ys) = (if cmp x y \<le> 0 then x # y # ys else y # insert_by cmp x ys)"

definition sort_by :: "('a \<Rightarrow> 'a \<Rightarrow> int) \<Rightarrow> 'a list \<Rightarrow> 'a list" where
  "sort_by cmp xs = foldr (insert_by cmp) xs []"

text \<open>The decimal numeral of a number, as a template literal prints it.\<close>

fun string_of_nat :: "nat \<Rightarrow> string" where
  "string_of_nat n =
     (if n < 10 then [''0123456789'' ! n]
      else string_of_nat (n div 10) @ [''0123456789'' ! (n mod 10)])"

text \<open>
  The text of a section heading: \<^verbatim>\<open>`${index + 1}. ${section.label}`\<close> when
  \<^verbatim>\<open>config.layout && config.layout.showSectionNumbers\<close>, else the label.
\<close>

definition numbered :: "formConfig \<Rightarrow> bool" where
  "numbered config = (case cfg_layout config of None \<Rightarrow> False | Some l \<Rightarrow> showSectionNumbers l)"

definition sectionTitle :: "formConfig \<Rightarrow> nat \<Rightarrow> sectionSpec \<Rightarrow> string" where
  "sectionTitle config index section =
     (if numbered config then string_of_nat (index + 1) @ ''. '' @ s_label section
      else s_label section)"

text \<open>The body of \<^verbatim>\<open>sections.forEach((section, index) => ...)\<close>: one section element.\<close>

definition renderSection :: "formConfig \<Rightarrow> string \<Rightarrow> nat \<Rightarrow> sectionSpec \<Rightarrow> section_el" where
  "renderSection config userRole index section =
     \<lparr>se_className = ''section'',
      se_children =
        [SectionTitle (sectionTitle config index section)] @
        (case s_helpText section of
           None \<Rightarrow> []
         | Some h \<Rightarrow> if h = [] then [] else [SectionHelp h]) @
        map (\<lambda>field. FieldEl (createField field userRole))
          (case s_fields section of None \<Rightarrow> [] | Some fs \<Rightarrow> fs)\<rparr>"

text \<open>
  \<^verbatim>\<open>const sections = [...config.sections].sort(...)\<close> and the loop over it with the
  index.
\<close>

definition sorted_sections :: "formConfig \<Rightarrow> sectionSpec list" where
  "sorted_sections config = sort_by compare_order (cfg_sections config)"

definition renderSections :: "formConfig \<Rightarrow> string \<Rightarrow> section_el list" where
  "renderSections config userRole =
     map (\<lambda>(index, section). renderSection config userRole index section)
       (enumerate 0 (sorted_sections config))"

text \<open>Reading the tree: the headings of a section, the wrappers, the controls.\<close>

fun section_titles :: "section_child list \<Rightarrow> string list" where
  "section_titles [] = []"
| "section_titles (SectionTitle t # cs) = t # section_titles cs"
| "section_titles (c # cs) = section_titles cs"

fun section_fields :: "section_child list \<Rightarrow> field_el list" where
  "section_fields [] = []"
| "section_fields (FieldEl w # cs) = w # section_fields cs"
| "section_fields (c # cs) = section_fields cs"

fun form_sections :: "form_child list \<Rightarrow> section_el list" where
  "form_sections [] = []"
| "form_sections (SectionEl s # cs) = s # form_sections cs"
| "form_sections (c # cs) = form_sections cs"

text \<open>\<^verbatim>\<open>formEl.querySelectorAll('.field')\<close>: every wrapper, in document order.\<close>

definition form_fields :: "form_child list \<Rightarrow> field_el list" where
  "form_fields form = concat (map (\<lambda>s. section_fields (se_children s)) (form_sections form))"

text \<open>
  The controls of the form in document order; for each wrapper,
  \<^verbatim>\<open>f.querySelector('input, select, textarea')\<close> is its control, if it has one.
\<close>

definition form_controls :: "form_child list \<Rightarrow> control list" where
  "form_controls form = List.map_filter fe_control (form_fields form)"

text \<open>Writing to the wrappers of the tree: the same function on every wrapper.\<close>

fun section_map :: "(field_el \<Rightarrow> field_el) \<Rightarrow> section_child \<Rightarrow> section_child" where
  "section_map g (FieldEl w) = FieldEl (g w)"
| "section_map g c = c"

fun form_map :: "(field_el \<Rightarrow> field_el) \<Rightarrow> form_child \<Rightarrow> form_child" where
  "form_map g (SectionEl s) = SectionEl (s\<lparr>se_children := map (section_map g) (se_children s)\<rparr>)"
| "form_map g c = c"

text \<open>Writing to one wrapper, the \<open>k\<close>-th in document order.\<close>

fun section_upd :: "nat \<Rightarrow> (field_el \<Rightarrow> field_el) \<Rightarrow> section_child list \<Rightarrow> section_child list" where
  "section_upd k g [] = []"
| "section_upd k g (FieldEl w # cs) =
     (if k = 0 then FieldEl (g w) # cs else FieldEl w # section_upd (k - 1) g cs)"
| "section_upd k g (c # cs) = c # section_upd k g cs"

fun form_upd :: "nat \<Rightarrow> (field_el \<Rightarrow> field_el) \<Rightarrow> form_child list \<Rightarrow> form_child list" where
  "form_upd k g [] = []"
| "form_upd k g (SectionEl s # cs) =
     (let n = length (section_fields (se_children s))
      in if k < n then SectionEl (s\<lparr>se_children := section_upd k g (se_children s)\<rparr>) # cs
         else SectionEl s # form_upd (k - n) g cs)"
| "form_upd k g (c # cs) = c # form_upd k g cs"


text \<open>
  Writing to the wrappers in document order, each with its index: the shape of
  \<^verbatim>\<open>fields.forEach(wrapper => ...)\<close>; \<open>k\<close> is the index of the first wrapper met.
\<close>

fun section_imap :: "(nat \<Rightarrow> field_el \<Rightarrow> field_el) \<Rightarrow> nat \<Rightarrow> section_child list \<Rightarrow> section_child list" where
  "section_imap g k [] = []"
| "section_imap g k (FieldEl w # cs) = FieldEl (g k w) # section_imap g (Suc k) cs"
| "section_imap g k (c # cs) = c # section_imap g k cs"

fun form_imap :: "(nat \<Rightarrow> field_el \<Rightarrow> field_el) \<Rightarrow> nat \<Rightarrow> form_child list \<Rightarrow> form_child list" where
  "form_imap g k [] = []"
| "form_imap g k (SectionEl s # cs) =
     SectionEl (s\<lparr>se_children := section_imap g k (se_children s)\<rparr>) #
     form_imap g (k + length (section_fields (se_children s))) cs"
| "form_imap g k (c # cs) = c # form_imap g k cs"

section \<open>The live page\<close>

text \<open>
  The query parameters the code reads, the children of the mount point
  \<^verbatim>\<open>#form-metadata\<close>, and the page: the children of \<^verbatim>\<open>#form-metadata\<close> and of
  \<^verbatim>\<open>#dynamic-form\<close>, the class list of \<^verbatim>\<open>#form-output\<close>, the text of \<^verbatim>\<open>#output-json\<close>,
  the console, and whether the submit listener and the change listeners are attached.
  The host page supplies the four mount points; \<^verbatim>\<open>getElementById\<close> finds each of them,
  which takes that no other element of the document carries one of their ids.

  The page also carries what the platform's interfaces of a form control hold under a
  property name (\<open>pg_interface\<close>, by the tag of the control): nothing, a method, a
  constant, an attribute that can be written, or a read-only attribute; and whether
  the interfaces of a file hold an attribute under a name (\<open>pg_file_attribute\<close>).  The
  interfaces are no part of the program; its behaviour depends on them in one case
  only, when a control or a file has become the prototype of an object of the
  program.  \<^verbatim>\<open>Object.prototype\<close> is not part of the tables.
\<close>

record query =
  q_form :: "string option"
  q_lang :: "string option"
  q_role :: "string option"

datatype meta_child = H2_el string | P_el string

datatype console_entry = ConsoleError string string | ConsoleLog string formConfig

datatype member = No_member | Method | Constant | Attribute | Readonly_attribute

record page =
  pg_metadata :: "meta_child list"
  pg_form :: "form_child list"
  pg_output_classes :: "string list"
  pg_output_json :: string
  pg_console :: "console_entry list"
  pg_submit_listener :: bool
  pg_change_listeners :: bool
  pg_interface :: "tag \<Rightarrow> string \<Rightarrow> member"
  pg_file_attribute :: "string \<Rightarrow> bool"

text \<open>\<^verbatim>\<open>classList.add\<close> and \<^verbatim>\<open>classList.remove\<close>: a class list holds a token once.\<close>

definition classList_add :: "string \<Rightarrow> string list \<Rightarrow> string list" where
  "classList_add c cs = (if c \<in> set cs then cs else cs @ [c])"

definition classList_remove :: "string \<Rightarrow> string list \<Rightarrow> string list" where
  "classList_remove c cs = filter (\<lambda>x. x \<noteq> c) cs"

section \<open>applyVisibilityRules\<close>

text \<open>
  \<^verbatim>\<open>fieldMap\<close> is a plain object used as a map from control names to controls.  It
  holds references to the live controls: a control is referred to by the index of its
  wrapper in \<^verbatim>\<open>fields\<close>, and the value read through the map is the value that control
  has when it is read.  The object has its own properties (\<open>fm_own\<close>) and a prototype:
  \<^verbatim>\<open>Object.prototype\<close> at first (\<open>fm_proto = None\<close>), or a control, with its tag.
  \<open>fm_thrown\<close> records that an assignment threw a \<^verbatim>\<open>TypeError\<close>, which ends the loop
  and \<^verbatim>\<open>applyVisibilityRules\<close>.
\<close>

record fieldMap =
  fm_own :: "string \<rightharpoonup> nat"
  fm_proto :: "(nat \<times> tag) option"
  fm_thrown :: bool

text \<open>
  \<^verbatim>\<open>fieldMap[input.name] = input\<close> for the control of the \<open>k\<close>-th wrapper.  The name
  \<^verbatim>\<open>__proto__\<close> reaches the setter every object inherits: the control becomes the
  prototype of the map and no property is stored.  A name the map owns is overwritten.
  A new name is looked up along the prototype chain first.  \<^verbatim>\<open>Object.prototype\<close> holds
  only methods besides \<^verbatim>\<open>__proto__\<close>, and the property is created.  When a control is
  the prototype, the chain runs through the interfaces of that control: over a method
  or no member the property is created; over an attribute the attribute's setter is
  called on the map, which is no element, and throws; over a constant or a read-only
  attribute the assignment does nothing (the program is a classic script, without
  \<^verbatim>\<open>import\<close>, \<^verbatim>\<open>export\<close> or \<^verbatim>\<open>"use strict"\<close>: an assignment that cannot store is passed
  over in silence).
\<close>

definition fieldMap_assign ::
  "(tag \<Rightarrow> string \<Rightarrow> member) \<Rightarrow> nat \<Rightarrow> control \<Rightarrow> fieldMap \<Rightarrow> fieldMap" where
  "fieldMap_assign interface k input m =
     (if fm_thrown m then m
      else if ctl_name input = ''__proto__'' then m\<lparr>fm_proto := Some (k, ctl_tag input)\<rparr>
      else if fm_own m (ctl_name input) \<noteq> None then
        m\<lparr>fm_own := (fm_own m)(ctl_name input \<mapsto> k)\<rparr>
      else (case fm_proto m of
              None \<Rightarrow> m\<lparr>fm_own := (fm_own m)(ctl_name input \<mapsto> k)\<rparr>
            | Some (p, t) \<Rightarrow>
                (case interface t (ctl_name input) of
                   Attribute \<Rightarrow> m\<lparr>fm_thrown := True\<rparr>
                 | Constant \<Rightarrow> m
                 | Readonly_attribute \<Rightarrow> m
                 | _ \<Rightarrow> m\<lparr>fm_own := (fm_own m)(ctl_name input \<mapsto> k)\<rparr>)))"

text \<open>
  \<^verbatim>\<open>fields.forEach(f => { const input = f.querySelector(...); if (input) ... })\<close>.
  No control is added, removed or renamed after the form is rendered, so the map is
  computed from the wrappers of the current tree.
\<close>

definition fieldMap_of :: "(tag \<Rightarrow> string \<Rightarrow> member) \<Rightarrow> field_el list \<Rightarrow> fieldMap" where
  "fieldMap_of interface field_els =
     fold (\<lambda>(k, f) m. case fe_control f of
                         None \<Rightarrow> m
                       | Some input \<Rightarrow> fieldMap_assign interface k input m)
       (enumerate 0 field_els)
       \<lparr>fm_own = Map.empty, fm_proto = None, fm_thrown = False\<rparr>"

text \<open>
  Reading \<^verbatim>\<open>fieldMap[depField]\<close>.  An own property yields its control.  A key the map
  does not own is looked up along the prototype chain.  For the member names of
  \<^verbatim>\<open>Object.prototype\<close> the read yields a function, which is truthy and has no \<^verbatim>\<open>value\<close>;
  for \<^verbatim>\<open>__proto__\<close> it yields the prototype: \<^verbatim>\<open>Object.prototype\<close>, truthy and without
  \<^verbatim>\<open>value\<close>, or the control that took its place.  When a control is the prototype, a
  method or constant of its interfaces is truthy and has no \<^verbatim>\<open>value\<close> either, and the
  getter of an attribute, called on the map, throws.  Any other key yields
  \<^verbatim>\<open>undefined\<close>.
\<close>

definition Object_prototype_members :: "string list" where
  "Object_prototype_members =
     [''constructor'', ''__defineGetter__'', ''__defineSetter__'', ''hasOwnProperty'',
      ''__lookupGetter__'', ''__lookupSetter__'', ''isPrototypeOf'', ''propertyIsEnumerable'',
      ''toString'', ''valueOf'', ''__proto__'', ''toLocaleString'']"

datatype lookup = Undefined | Control control | Inherited | Throws

definition live_control :: "field_el list \<Rightarrow> nat \<Rightarrow> lookup" where
  "live_control field_els k =
     (if k < length field_els
      then (case fe_control (field_els ! k) of None \<Rightarrow> Undefined | Some c \<Rightarrow> Control c)
      else Undefined)"

definition fieldMap_get ::
  "(tag \<Rightarrow> string \<Rightarrow> member) \<Rightarrow> field_el list \<Rightarrow> fieldMap \<Rightarrow> string \<Rightarrow> lookup" where
  "fieldMap_get interface field_els m key =
     (case fm_own m key of
        Some k \<Rightarrow> live_control field_els k
      | None \<Rightarrow>
          (case fm_proto m of
             None \<Rightarrow> if key \<in> set Object_prototype_members then Inherited else Undefined
           | Some (p, t) \<Rightarrow>
               if key = ''__proto__'' then live_control field_els p
               else (case interface t key of
                       Attribute \<Rightarrow> Throws
                     | Readonly_attribute \<Rightarrow> Throws
                     | Method \<Rightarrow> Inherited
                     | Constant \<Rightarrow> Inherited
                     | No_member \<Rightarrow>
                         if key \<in> set Object_prototype_members then Inherited else Undefined)))"

text \<open>
  The body of \<^verbatim>\<open>fields.forEach(wrapper => ...)\<close> in \<^verbatim>\<open>updateVisibility\<close>; \<open>get\<close> reads
  \<^verbatim>\<open>fieldMap\<close>.  The two early returns leave the wrapper as it is: when
  \<^verbatim>\<open>dataset.visibleIfField\<close> is absent or empty, and when the map yields nothing truthy.
  Otherwise \<^verbatim>\<open>controller.value === depValue\<close> decides between \<^verbatim>\<open>''\<close> and \<^verbatim>\<open>'none'\<close>; for
  an inherited member \<^verbatim>\<open>controller.value\<close> is \<^verbatim>\<open>undefined\<close>.  \<open>wrapper_throws\<close> tells
  whether the read of the map throws for this wrapper.
\<close>

definition update_wrapper :: "(string \<Rightarrow> lookup) \<Rightarrow> field_el \<Rightarrow> field_el" where
  "update_wrapper get wrapper =
     (case fe_visibleIfField wrapper of
        None \<Rightarrow> wrapper
      | Some depField \<Rightarrow>
          if depField = [] then wrapper
          else (case get depField of
                  Undefined \<Rightarrow> wrapper
                | Control controller \<Rightarrow>
                    wrapper\<lparr>fe_display :=
                      (if Some (value_of controller) = fe_visibleIfEquals wrapper
                       then [] else ''none'')\<rparr>
                | Inherited \<Rightarrow>
                    wrapper\<lparr>fe_display :=
                      (if fe_visibleIfEquals wrapper = None then [] else ''none'')\<rparr>
                | Throws \<Rightarrow> wrapper))"

definition wrapper_throws :: "(string \<Rightarrow> lookup) \<Rightarrow> field_el \<Rightarrow> bool" where
  "wrapper_throws get wrapper =
     (case fe_visibleIfField wrapper of
        None \<Rightarrow> False
      | Some depField \<Rightarrow> depField \<noteq> [] \<and> get depField = Throws)"

text \<open>
  \<^verbatim>\<open>updateVisibility\<close>: the wrappers are visited in document order; a \<^verbatim>\<open>TypeError\<close> ends
  the loop, and the wrappers from that one on are left as they are.
\<close>

definition updateVisibility :: "(tag \<Rightarrow> string \<Rightarrow> member) \<Rightarrow> form_child list \<Rightarrow> form_child list" where
  "updateVisibility interface formEl =
     (let field_els = form_fields formEl;
          get = fieldMap_get interface field_els (fieldMap_of interface field_els);
          n = length (takeWhile (\<lambda>w. \<not> wrapper_throws get w) field_els)
      in form_imap (\<lambda>k w. if k < n then update_wrapper get w else w) 0 formEl)"

text \<open>
  \<^verbatim>\<open>applyVisibilityRules\<close>: the map is built; the change listeners are attached to the
  controls that are values of its own properties; then \<^verbatim>\<open>updateVisibility\<close> runs once.
  If building the map throws, the function is left there and then.
\<close>

definition applyVisibilityRules :: "page \<Rightarrow> page" where
  "applyVisibilityRules st =
     (if fm_thrown (fieldMap_of (pg_interface st) (form_fields (pg_form st))) then st
      else st\<lparr>pg_change_listeners := True,
              pg_form := updateVisibility (pg_interface st) (pg_form st)\<rparr>)"

text \<open>
  A wrapper is shown unless its inline style hides it.
\<close>

definition visible :: "field_el \<Rightarrow> bool" where
  "visible w = (fe_display w \<noteq> ''none'')"

section \<open>renderForm\<close>

text \<open>
  \<^verbatim>\<open>renderForm(config)\<close>: the role is \<^verbatim>\<open>params.get('role') || 'user'\<close>; title and
  description are appended to \<^verbatim>\<open>#form-metadata\<close>; the sections, sorted, and the submit
  button are appended to the form; the submit listener is attached; the visibility
  rules are applied.
\<close>

definition renderForm :: "formConfig \<Rightarrow> query \<Rightarrow> page \<Rightarrow> page" where
  "renderForm config params st =
     (let userRole = or_else (q_role params) ''user''
      in applyVisibilityRules
           (st\<lparr>pg_metadata := pg_metadata st @ [H2_el (cfg_title config), P_el (cfg_description config)],
               pg_form := pg_form st @ map SectionEl (renderSections config userRole) @
                          [SubmitButton ''Submit Incident''],
               pg_submit_listener := True\<rparr>))"

section \<open>The submit listener\<close>

text \<open>
  \<^verbatim>\<open>formEl.checkValidity()\<close>: every control of the form satisfies its constraints.  The
  only constraint the code sets is \<^verbatim>\<open>required\<close>.  A required \<^verbatim>\<open>textarea\<close>, and a
  required \<^verbatim>\<open>input\<close> of a kind to which the attribute applies, is missing its value
  when the value is empty; a required checkbox when it is not checked; a radio button
  when some button of its group is required and none of the group is checked; a
  required file input when no file is chosen; a required \<^verbatim>\<open>select\<close> when no option is
  selected or the selected one is the placeholder label option (the first option,
  when its value is empty).  To an \<^verbatim>\<open>input\<close> of the kinds \<^verbatim>\<open>hidden\<close>, \<^verbatim>\<open>range\<close>, \<^verbatim>\<open>color\<close>
  and to the buttons the attribute does not apply.  The radio button group of a
  button is made of the radio buttons of the form that carry its name; a button
  without a name is a group of its own.
\<close>

definition is_radio :: "control \<Rightarrow> bool" where
  "is_radio c = (ctl_tag c = INPUT \<and> input_kind c = ''radio'')"

definition radio_group :: "control list \<Rightarrow> control \<Rightarrow> control list" where
  "radio_group cs c =
     (if ctl_name c = [] then [c] else filter (\<lambda>r. is_radio r \<and> ctl_name r = ctl_name c) cs)"

definition valueMissing :: "control list \<Rightarrow> control \<Rightarrow> bool" where
  "valueMissing cs c =
     (case ctl_tag c of
        SELECT \<Rightarrow> ctl_required c \<and>
                  (\<not> ctl_selected c < length (ctl_options c) \<or>
                   (ctl_selected c = 0 \<and> ctl_options c ! 0 = []))
      | TEXTAREA \<Rightarrow> ctl_required c \<and> ctl_text c = []
      | INPUT \<Rightarrow>
          if input_kind c = ''checkbox'' then ctl_required c \<and> \<not> ctl_checked c
          else if input_kind c = ''radio'' then
            list_ex ctl_required (radio_group cs c) \<and> \<not> list_ex ctl_checked (radio_group cs c)
          else if input_kind c = ''file'' then ctl_required c \<and> ctl_file c = None
          else if input_kind c \<in> set required_kinds then ctl_required c \<and> ctl_text c = []
          else False)"

text \<open>
  The other way a control can be invalid: an \<^verbatim>\<open>input\<close> of a kind with rules for what
  is entered holds an entry that breaks them.
\<close>

definition entry_rejected :: "control \<Rightarrow> bool" where
  "entry_rejected c = (ctl_tag c = INPUT \<and> input_kind c \<in> set typed_kinds \<and> ctl_badInput c)"

definition control_valid :: "control list \<Rightarrow> control \<Rightarrow> bool" where
  "control_valid cs c = (\<not> valueMissing cs c \<and> \<not> entry_rejected c)"

definition checkValidity :: "form_child list \<Rightarrow> bool" where
  "checkValidity form = list_all (control_valid (form_controls form)) (form_controls form)"

text \<open>
  \<^verbatim>\<open>document.getElementById\<close> for an id that is not a mount point's: the first element
  in document order that carries the id.  In the form the elements with an id are the
  controls (\<^verbatim>\<open>input.id = field.id\<close>) and the validation summary; the host page is
  taken to have no element of that id outside the form.
\<close>

datatype element = ControlNode control | SummaryNode summary_el

fun section_find :: "string \<Rightarrow> section_child list \<Rightarrow> control option" where
  "section_find i [] = None"
| "section_find i (FieldEl w # cs) =
     (case fe_control w of
        None \<Rightarrow> section_find i cs
      | Some c \<Rightarrow> if ctl_id c = i then Some c else section_find i cs)"
| "section_find i (c # cs) = section_find i cs"

fun getElementById :: "string \<Rightarrow> form_child list \<Rightarrow> element option" where
  "getElementById i [] = None"
| "getElementById i (SectionEl s # cs) =
     (case section_find i (se_children s) of
        None \<Rightarrow> getElementById i cs
      | Some c \<Rightarrow> Some (ControlNode c))"
| "getElementById i (SummaryEl m # cs) =
     (if sm_id m = i then Some (SummaryNode m) else getElementById i cs)"
| "getElementById i (c # cs) = getElementById i cs"

text \<open>Writing to the element that \<^verbatim>\<open>getElementById\<close> found.\<close>

fun section_modify :: "string \<Rightarrow> (control \<Rightarrow> control) \<Rightarrow> section_child list \<Rightarrow> section_child list" where
  "section_modify i g [] = []"
| "section_modify i g (FieldEl w # cs) =
     (case fe_control w of
        None \<Rightarrow> FieldEl w # section_modify i g cs
      | Some c \<Rightarrow> if ctl_id c = i then FieldEl (w\<lparr>fe_control := Some (g c)\<rparr>) # cs
                  else FieldEl w # section_modify i g cs)"
| "section_modify i g (c # cs) = c # section_modify i g cs"

fun form_modify ::
  "string \<Rightarrow> (control \<Rightarrow> control) \<Rightarrow> (summary_el \<Rightarrow> summary_el) \<Rightarrow> form_child list \<Rightarrow> form_child list" where
  "form_modify i g h [] = []"
| "form_modify i g h (SectionEl s # cs) =
     (case section_find i (se_children s) of
        None \<Rightarrow> SectionEl s # form_modify i g h cs
      | Some c \<Rightarrow> SectionEl (s\<lparr>se_children := section_modify i g (se_children s)\<rparr>) # cs)"
| "form_modify i g h (SummaryEl m # cs) =
     (if sm_id m = i then SummaryEl (h m) # cs else SummaryEl m # form_modify i g h cs)"
| "form_modify i g h (c # cs) = c # form_modify i g h cs"

definition validation_message :: string where
  "validation_message = ''Please fix the errors above before submitting.''"

definition createValidationSummary :: "form_child list \<Rightarrow> form_child list" where
  "createValidationSummary formEl =
     formEl @ [SummaryEl \<lparr>sm_id = ''validation-summary'',
                          sm_classes = [''validation-summary''], sm_text = []\<rparr>]"

text \<open>
  \<^verbatim>\<open>element.textContent = t\<close> on a control: the children of the element are replaced by
  the text.  A \<^verbatim>\<open>textarea\<close> that the user has not edited takes the text as its value; a
  \<^verbatim>\<open>select\<close> loses its options; an \<^verbatim>\<open>input\<close> shows no children and keeps its value.
\<close>

definition set_textContent :: "string \<Rightarrow> control \<Rightarrow> control" where
  "set_textContent t c =
     (case ctl_tag c of
        TEXTAREA \<Rightarrow> c\<lparr>ctl_textContent := t, ctl_text := (if ctl_dirty c then ctl_text c else t)\<rparr>
      | SELECT \<Rightarrow> c\<lparr>ctl_textContent := t, ctl_options := []\<rparr>
      | INPUT \<Rightarrow> c\<lparr>ctl_textContent := t\<rparr>)"

text \<open>
  The branch of the listener for an invalid form:
  \<^verbatim>\<open>getElementById('validation-summary') || createValidationSummary(formEl)\<close>, then the
  message and the class \<^verbatim>\<open>show\<close> are written to that element, be it the summary or a
  control of that id.
\<close>

definition show_summary :: "form_child list \<Rightarrow> form_child list" where
  "show_summary formEl =
     form_modify ''validation-summary''
       (\<lambda>c. (set_textContent validation_message c)
               \<lparr>ctl_classes := classList_add ''show'' (ctl_classes c)\<rparr>)
       (\<lambda>m. m\<lparr>sm_text := validation_message,
               sm_classes := classList_add ''show'' (sm_classes m)\<rparr>)
       (case getElementById ''validation-summary'' formEl of
          None \<Rightarrow> createValidationSummary formEl
        | Some e \<Rightarrow> formEl)"

definition hide_summary :: "form_child list \<Rightarrow> form_child list" where
  "hide_summary formEl =
     form_modify ''validation-summary''
       (\<lambda>c. c\<lparr>ctl_classes := classList_remove ''show'' (ctl_classes c)\<rparr>)
       (\<lambda>m. m\<lparr>sm_classes := classList_remove ''show'' (sm_classes m)\<rparr>)
       formEl"

text \<open>
  \<^verbatim>\<open>new FormData(formEl)\<close>: the entry list of the form, in document order.  An entry is
  a name with a string or with a file, of which the name is kept here (a file input
  without a chosen file gives a file with the empty name).  The platform leaves out
  the buttons, a checkbox or radio button that is not checked, and then every control
  without a name.  A \<^verbatim>\<open>select\<close> contributes the value of its selected option, and
  nothing when no option is selected; a checked checkbox or radio button its value,
  \<^verbatim>\<open>on\<close>; a file input its file; a hidden input named \<^verbatim>\<open>_charset_\<close>, in any case of the
  letters, the name of the encoding, \<^verbatim>\<open>UTF-8\<close>; every other \<^verbatim>\<open>input\<close> and a \<^verbatim>\<open>textarea\<close>
  their value.  The submit button of the form is a button.
\<close>

datatype entry_value = Str string | File string

definition form_entry :: "control \<Rightarrow> (string \<times> entry_value) list" where
  "form_entry c =
     (case ctl_tag c of
        SELECT \<Rightarrow> (if ctl_name c \<noteq> [] \<and> ctl_selected c < length (ctl_options c)
                   then [(ctl_name c, Str (ctl_options c ! ctl_selected c))] else [])
      | TEXTAREA \<Rightarrow> (if ctl_name c \<noteq> [] then [(ctl_name c, Str (ctl_text c))] else [])
      | INPUT \<Rightarrow>
          if input_kind c \<in> set button_kinds then []
          else if input_kind c \<in> set checked_kinds \<and> \<not> ctl_checked c then []
          else if ctl_name c = [] then []
          else if input_kind c \<in> set checked_kinds then [(ctl_name c, Str ''on'')]
          else if input_kind c = ''file'' then
            [(ctl_name c, File (case ctl_file c of None \<Rightarrow> [] | Some f \<Rightarrow> f))]
          else if input_kind c = ''hidden'' \<and> map ascii_lower (ctl_name c) = ''_charset_'' then
            [(ctl_name c, Str ''UTF-8'')]
          else [(ctl_name c, Str (value_of c))])"

definition formData_entries :: "form_child list \<Rightarrow> (string \<times> entry_value) list" where
  "formData_entries formEl = concat (map form_entry (form_controls formEl))"

text \<open>
  \<^verbatim>\<open>for (const [key, value] of formData.entries()) data[key] = value\<close>: the object
  \<^verbatim>\<open>data\<close> with the list of its properties in creation order; writing an existing key
  replaces the value and keeps the place.  An assignment to the key \<^verbatim>\<open>__proto__\<close> calls
  the setter that \<^verbatim>\<open>data\<close> inherits: it ignores a string, and it makes a file, which is
  an object, the prototype of \<^verbatim>\<open>data\<close>; no property is stored.  Once a file is the
  prototype, a new key that names an attribute of a file is not stored either: the
  attributes of a file are read-only, the assignment finds the attribute without a
  setter and does nothing (a classic script does not throw here).  Which names these
  are is the platform's to say (\<open>file_attribute\<close>, the \<open>pg_file_attribute\<close> of the
  page): \<^verbatim>\<open>name\<close>, \<^verbatim>\<open>size\<close>, \<^verbatim>\<open>type\<close>, \<^verbatim>\<open>lastModified\<close> and what else it defines.
\<close>

record data_object =
  dt_own :: "(string \<times> entry_value) list"
  dt_file_proto :: bool

definition data_set :: "(string \<Rightarrow> bool) \<Rightarrow> string \<Rightarrow> entry_value \<Rightarrow> data_object \<Rightarrow> data_object" where
  "data_set file_attribute key val data =
     (if key = ''__proto__'' then
        (case val of Str s \<Rightarrow> data | File f \<Rightarrow> data\<lparr>dt_file_proto := True\<rparr>)
      else if map_of (dt_own data) key = None \<and> dt_file_proto data \<and> file_attribute key
        then data
      else data\<lparr>dt_own := AList.update key val (dt_own data)\<rparr>)"

definition collect_data :: "(string \<Rightarrow> bool) \<Rightarrow> (string \<times> entry_value) list \<Rightarrow> data_object" where
  "collect_data file_attribute entries =
     fold (\<lambda>(key, val) data. data_set file_attribute key val data) entries
       \<lparr>dt_own = [], dt_file_proto = False\<rparr>"

definition snapshot :: "(string \<Rightarrow> bool) \<Rightarrow> form_child list \<Rightarrow> (string \<times> entry_value) list" where
  "snapshot file_attribute formEl = dt_own (collect_data file_attribute (formData_entries formEl))"

section \<open>JSON.stringify\<close>

text \<open>
  \<^verbatim>\<open>JSON.stringify(data, null, 2)\<close> on an object whose property values are strings
  and files.  The properties are written in the order of the object's own keys: keys that are
  array indices (canonical decimal numerals below \<open>2\<^sup>3\<^sup>2 - 1\<close>) first, ascending, then
  the other keys in creation order.  A string is written between double quotes, with
  the quote, the backslash and the control characters escaped; a file, an object
  without properties of its own to list, is written \<^verbatim>\<open>{}\<close>.  The characters of a
  \<open>string\<close> are the code units below 256; \<^verbatim>\<open>JSON.stringify\<close> writes the larger ones
  as they are too, but for unpaired surrogates.
\<close>

definition digit_value :: "char \<Rightarrow> nat" where
  "digit_value c = of_char c - 48"

definition nat_of_digits :: "string \<Rightarrow> nat" where
  "nat_of_digits s = foldl (\<lambda>n c. 10 * n + digit_value c) 0 s"

text \<open>
  Numerals of equal length compare as their digits do, from the left; an array index
  is a canonical numeral below \<open>4294967295\<close>.
\<close>

fun digits_less :: "string \<Rightarrow> string \<Rightarrow> bool" where
  "digits_less (a # as) (b # bs) =
     ((of_char a :: nat) < of_char b \<or> (a = b \<and> digits_less as bs))"
| "digits_less as bs = False"

definition array_index :: "string \<Rightarrow> nat option" where
  "array_index s =
     (if s \<noteq> [] \<and> list_all (\<lambda>c. c \<in> set ''0123456789'') s \<and>
         (s = ''0'' \<or> hd s \<noteq> CHR ''0'') \<and>
         (length s < 10 \<or> (length s = 10 \<and> digits_less s ''4294967295''))
      then Some (nat_of_digits s) else None)"

definition own_keys_order :: "(string \<times> 'a) list \<Rightarrow> (string \<times> 'a) list" where
  "own_keys_order data =
     sort_key (\<lambda>p. case array_index (fst p) of None \<Rightarrow> 0 | Some n \<Rightarrow> n)
       (filter (\<lambda>p. array_index (fst p) \<noteq> None) data) @
     filter (\<lambda>p. array_index (fst p) = None) data"

definition hex_digit :: "nat \<Rightarrow> char" where
  "hex_digit n = ''0123456789abcdef'' ! n"

definition json_escape :: "char \<Rightarrow> string" where
  "json_escape c =
     (if c = CHR 0x22 then [CHR 0x5C, CHR 0x22]
      else if c = CHR 0x5C then [CHR 0x5C, CHR 0x5C]
      else if c = CHR 0x08 then [CHR 0x5C, CHR ''b'']
      else if c = CHR 0x09 then [CHR 0x5C, CHR ''t'']
      else if c = CHR 0x0A then [CHR 0x5C, CHR ''n'']
      else if c = CHR 0x0C then [CHR 0x5C, CHR ''f'']
      else if c = CHR 0x0D then [CHR 0x5C, CHR ''r'']
      else if (of_char c :: nat) < 32 then
        [CHR 0x5C, CHR ''u'', CHR ''0'', CHR ''0'',
         hex_digit ((of_char c :: nat) div 16), hex_digit ((of_char c :: nat) mod 16)]
      else [c])"

definition JSON_quote :: "string \<Rightarrow> string" where
  "JSON_quote s = CHR 0x22 # concat (map json_escape s) @ [CHR 0x22]"

definition json_value :: "entry_value \<Rightarrow> string" where
  "json_value v = (case v of Str s \<Rightarrow> JSON_quote s | File f \<Rightarrow> ''{}'')"

definition json_member :: "string \<times> entry_value \<Rightarrow> string" where
  "json_member p = ''  '' @ JSON_quote (fst p) @ '': '' @ json_value (snd p)"

fun json_members :: "(string \<times> entry_value) list \<Rightarrow> string" where
  "json_members [] = []"
| "json_members [p] = json_member p"
| "json_members (p # q # ps) = json_member p @ [CHR '','', CHR 0x0A] @ json_members (q # ps)"

definition JSON_stringify :: "(string \<times> entry_value) list \<Rightarrow> string" where
  "JSON_stringify data =
     (if data = [] then ''{}''
      else ''{'' @ [CHR 0x0A] @ json_members (own_keys_order data) @ [CHR 0x0A] @ ''}'')"

section \<open>The submit listener, the events, the page load\<close>

text \<open>
  The listener of \<^verbatim>\<open>submit\<close>.  An invalid form shows the summary and returns.  A valid
  form hides the summary if there is one, collects the entries and writes them to
  \<^verbatim>\<open>#output-json\<close>, and takes the class \<^verbatim>\<open>hidden\<close> off \<^verbatim>\<open>#form-output\<close>.
\<close>

definition submit_listener :: "page \<Rightarrow> page" where
  "submit_listener st =
     (if \<not> checkValidity (pg_form st) then st\<lparr>pg_form := show_summary (pg_form st)\<rparr>
      else st\<lparr>pg_form := hide_summary (pg_form st),
              pg_output_json := JSON_stringify (snapshot (pg_file_attribute st) (pg_form st)),
              pg_output_classes := classList_remove ''hidden'' (pg_output_classes st)\<rparr>)"

text \<open>
  What a user does to the page, at the control of the \<open>k\<close>-th wrapper: enter a text
  into a \<^verbatim>\<open>textarea\<close> or into an \<^verbatim>\<open>input\<close> of a kind with a value of its own (the event
  carries the value the control has afterwards, and whether the platform holds the
  entry for unusable); choose the \<open>i\<close>-th option of a \<^verbatim>\<open>select\<close>; click a checkbox, which
  changes its checkedness, or a radio button that is not checked, which checks it and
  unchecks the other buttons of its group; choose a file, or none, in a file input; or
  submit the form.  All but the last fire \<^verbatim>\<open>change\<close> on the control.  The listener
  \<^verbatim>\<open>updateVisibility\<close> was attached to the controls that are values of the own
  properties of \<^verbatim>\<open>fieldMap\<close>; when no control is named \<^verbatim>\<open>__proto__\<close> these are, for every
  name, the last control of that name.  An event aimed at a wrapper without a control
  of the right kind does nothing.  \<open>Submit\<close> stands for the \<^verbatim>\<open>submit\<close> event reaching the
  form (for an invalid form the platform dispatches it only if the host page switched
  its own validation off); without the listener the page is left as it is here, the
  navigation that would follow not being modelled.
\<close>

datatype event =
  Type_text nat string bool | Choose nat nat | Toggle nat | Pick_file nat "string option" | Submit

definition control_at :: "form_child list \<Rightarrow> nat \<Rightarrow> control option" where
  "control_at formEl k =
     (if k < length (form_fields formEl) then fe_control (form_fields formEl ! k) else None)"

definition set_control :: "nat \<Rightarrow> control \<Rightarrow> form_child list \<Rightarrow> form_child list" where
  "set_control k c formEl = form_upd k (\<lambda>w. w\<lparr>fe_control := Some c\<rparr>) formEl"

text \<open>Unchecking the radio buttons of a name; a button without a name has no group.\<close>

definition uncheck :: "string \<Rightarrow> field_el \<Rightarrow> field_el" where
  "uncheck name w =
     (case fe_control w of
        None \<Rightarrow> w
      | Some r \<Rightarrow> if is_radio r \<and> ctl_name r = name
                  then w\<lparr>fe_control := Some (r\<lparr>ctl_checked := False\<rparr>)\<rparr> else w)"

definition uncheck_group :: "string \<Rightarrow> form_child list \<Rightarrow> form_child list" where
  "uncheck_group name formEl = (if name = [] then formEl else map (form_map (uncheck name)) formEl)"

text \<open>
  Whether the control of the \<open>k\<close>-th wrapper has the change listener: the map was
  built without a \<^verbatim>\<open>TypeError\<close> and holds this control under its name.
\<close>

definition listens :: "(tag \<Rightarrow> string \<Rightarrow> member) \<Rightarrow> form_child list \<Rightarrow> nat \<Rightarrow> bool" where
  "listens interface formEl k =
     (case control_at formEl k of
        None \<Rightarrow> False
      | Some c \<Rightarrow>
          \<not> fm_thrown (fieldMap_of interface (form_fields formEl)) \<and>
          fm_own (fieldMap_of interface (form_fields formEl)) (ctl_name c) = Some k)"

definition fire_change :: "nat \<Rightarrow> page \<Rightarrow> page" where
  "fire_change k st =
     (if pg_change_listeners st \<and> listens (pg_interface st) (pg_form st) k
      then st\<lparr>pg_form := updateVisibility (pg_interface st) (pg_form st)\<rparr> else st)"

fun step :: "event \<Rightarrow> page \<Rightarrow> page" where
  "step (Type_text k v bad) st =
     (case control_at (pg_form st) k of
        None \<Rightarrow> st
      | Some c \<Rightarrow>
          if ctl_tag c = TEXTAREA \<or> (ctl_tag c = INPUT \<and> input_kind c \<in> set value_kinds)
          then fire_change k
                 (st\<lparr>pg_form := set_control k
                                   (c\<lparr>ctl_text := v, ctl_dirty := True, ctl_badInput := bad\<rparr>)
                                   (pg_form st)\<rparr>)
          else st)"
| "step (Choose k i) st =
     (case control_at (pg_form st) k of
        None \<Rightarrow> st
      | Some c \<Rightarrow>
          if ctl_tag c = SELECT \<and> i < length (ctl_options c)
          then fire_change k (st\<lparr>pg_form := set_control k (c\<lparr>ctl_selected := i\<rparr>) (pg_form st)\<rparr>)
          else st)"
| "step (Toggle k) st =
     (case control_at (pg_form st) k of
        None \<Rightarrow> st
      | Some c \<Rightarrow>
          if ctl_tag c = INPUT \<and> input_kind c = ''checkbox''
          then fire_change k
                 (st\<lparr>pg_form := set_control k (c\<lparr>ctl_checked := \<not> ctl_checked c\<rparr>) (pg_form st)\<rparr>)
          else if is_radio c \<and> \<not> ctl_checked c
          then fire_change k
                 (st\<lparr>pg_form := set_control k (c\<lparr>ctl_checked := True\<rparr>)
                                   (uncheck_group (ctl_name c) (pg_form st))\<rparr>)
          else st)"
| "step (Pick_file k f) st =
     (case control_at (pg_form st) k of
        None \<Rightarrow> st
      | Some c \<Rightarrow>
          if ctl_tag c = INPUT \<and> input_kind c = ''file''
          then fire_change k (st\<lparr>pg_form := set_control k (c\<lparr>ctl_file := f\<rparr>) (pg_form st)\<rparr>)
          else st)"
| "step Submit st = (if pg_submit_listener st then submit_listener st else st)"

definition run :: "event list \<Rightarrow> page \<Rightarrow> page" where
  "run es st = fold step es st"

text \<open>
  \<^verbatim>\<open>loadConfig\<close>.  The request either fails to complete (the promise of \<^verbatim>\<open>fetch\<close> is
  rejected) or yields a response with its \<^verbatim>\<open>ok\<close> flag, its status text and its body;
  \<open>rs_json\<close> is \<open>None\<close> when the body is not a JSON object, in which case reading it
  throws.  A response that is not ok is logged and gives \<^verbatim>\<open>null\<close>.
\<close>

datatype 'a promise = Fulfilled 'a | Rejected

record response =
  rs_ok :: bool
  rs_statusText :: string
  rs_json :: "formConfig option"

definition localize :: "string \<Rightarrow> formConfig \<Rightarrow> formConfig" where
  "localize lang config =
     (case cfg_languages config of
        None \<Rightarrow> config
      | Some ls \<Rightarrow>
          (case map_of ls lang of
             None \<Rightarrow> config
           | Some langData \<Rightarrow>
               (case l_title langData of
                  None \<Rightarrow> config
                | Some t \<Rightarrow> if t = [] then config else config\<lparr>cfg_title := t\<rparr>)))"

definition configFile :: "query \<Rightarrow> string" where
  "configFile params =
     (if or_else (q_form params) ''incident'' = ''audit'' then ''../config/audit-form.json''
      else ''../config/incident-form.json'')"

definition loadConfig ::
  "query \<Rightarrow> (string \<Rightarrow> response promise) \<Rightarrow> console_entry list \<Rightarrow>
   formConfig option promise \<times> console_entry list" where
  "loadConfig params fetch console =
     (let formType = or_else (q_form params) ''incident'';
          lang = or_else (q_lang params) ''en''
      in case fetch (configFile params) of
           Rejected \<Rightarrow> (Rejected, console)
         | Fulfilled response \<Rightarrow>
             if \<not> rs_ok response then
               (Fulfilled None,
                console @ [ConsoleError ''Failed to load config'' (rs_statusText response)])
             else (case rs_json response of
                     None \<Rightarrow> (Rejected, console)
                   | Some config \<Rightarrow>
                       (Fulfilled (Some (localize lang config)),
                        console @ [ConsoleLog (''Loaded '' @ formType @ '' config in '' @ lang @ '':'')
                                     (localize lang config)])))"

text \<open>
  The listener of \<^verbatim>\<open>DOMContentLoaded\<close>:
  \<^verbatim>\<open>const config = await loadConfig(); if (config) renderForm(config)\<close>.
\<close>

definition onDOMContentLoaded :: "query \<Rightarrow> (string \<Rightarrow> response promise) \<Rightarrow> page \<Rightarrow> page" where
  "onDOMContentLoaded params fetch st =
     (case loadConfig params fetch (pg_console st) of
        (Rejected, console) \<Rightarrow> st\<lparr>pg_console := console\<rparr>
      | (Fulfilled None, console) \<Rightarrow> st\<lparr>pg_console := console\<rparr>
      | (Fulfilled (Some config), console) \<Rightarrow> renderForm config params (st\<lparr>pg_console := console\<rparr>))"

section \<open>JSON.parse\<close>

text \<open>
  \<^verbatim>\<open>JSON.parse\<close> on a text that denotes an object whose members are strings or empty
  objects, which is what \<^verbatim>\<open>JSON.stringify\<close> writes for \<^verbatim>\<open>data\<close>; the result is the list
  of the object's properties in creation order, a repeated key taking the last value.  The result is
  \<open>None\<close> for a text that is no JSON text and for a JSON text of another shape.
  Strings are sequences of code units below 256, so an escape \<^verbatim>\<open>\uXXXX\<close> of a larger
  code unit is not read either.  White space is space, tab, line feed and carriage
  return.
\<close>

datatype json = J_string string | J_object "(string \<times> json) list"

definition is_ws :: "char \<Rightarrow> bool" where
  "is_ws c = (c = CHR 0x20 \<or> c = CHR 0x09 \<or> c = CHR 0x0A \<or> c = CHR 0x0D)"

definition skip_ws :: "string \<Rightarrow> string" where
  "skip_ws s = dropWhile is_ws s"

definition hex_value :: "char \<Rightarrow> nat option" where
  "hex_value c =
     map_of (zip ''0123456789abcdefABCDEF''
               [0, 1, 2, 3, 4, 5, 6, 7, 8, 9, 10, 11, 12, 13, 14, 15, 10, 11, 12, 13, 14, 15]) c"

definition hex4 :: "char \<Rightarrow> char \<Rightarrow> char \<Rightarrow> char \<Rightarrow> nat option" where
  "hex4 a b c d =
     (case (hex_value a, hex_value b, hex_value c, hex_value d) of
        (Some w, Some x, Some y, Some z) \<Rightarrow> Some (((w * 16 + x) * 16 + y) * 16 + z)
      | _ \<Rightarrow> None)"

definition unescape :: "char \<Rightarrow> char option" where
  "unescape e =
     map_of [(CHR 0x22, CHR 0x22), (CHR 0x5C, CHR 0x5C), (CHR ''/'', CHR ''/''),
             (CHR ''b'', CHR 0x08), (CHR ''f'', CHR 0x0C), (CHR ''n'', CHR 0x0A),
             (CHR ''r'', CHR 0x0D), (CHR ''t'', CHR 0x09)] e"

definition prepend :: "char \<Rightarrow> (string \<times> string) option \<Rightarrow> (string \<times> string) option" where
  "prepend c r = (case r of None \<Rightarrow> None | Some (s, rest) \<Rightarrow> Some (c # s, rest))"

text \<open>
  The characters of a string after its opening quote: the string read, and the text
  after the closing quote.
\<close>

fun string_body :: "string \<Rightarrow> (string \<times> string) option" where
  "string_body [] = None"
| "string_body (c # cs) =
     (if c = CHR 0x22 then Some ([], cs)
      else if c = CHR 0x5C then
        (case cs of
           [] \<Rightarrow> None
         | e # cs' \<Rightarrow>
             if e = CHR ''u'' then
               (case cs' of
                  h1 # h2 # h3 # h4 # cs'' \<Rightarrow>
                    (case hex4 h1 h2 h3 h4 of
                       None \<Rightarrow> None
                     | Some n \<Rightarrow> if n < 256 then prepend (char_of n) (string_body cs'') else None)
                | _ \<Rightarrow> None)
             else (case unescape e of
                     None \<Rightarrow> None
                   | Some x \<Rightarrow> prepend x (string_body cs')))
      else if (of_char c :: nat) < 32 then None
      else prepend c (string_body cs))"

definition json_string :: "string \<Rightarrow> (string \<times> string) option" where
  "json_string s = (case s of [] \<Rightarrow> None | c # cs \<Rightarrow> if c = CHR 0x22 then string_body cs else None)"

text \<open>
  A member value: a string, or an empty object.
\<close>

definition json_member_value :: "string \<Rightarrow> (json \<times> string) option" where
  "json_member_value s =
     (case s of
        [] \<Rightarrow> None
      | c # cs \<Rightarrow>
          if c = CHR ''{'' then
            (case skip_ws cs of
               [] \<Rightarrow> None
             | d # rest \<Rightarrow> if d = CHR ''}'' then Some (J_object [], rest) else None)
          else (case json_string s of
                  None \<Rightarrow> None
                | Some (v, rest) \<Rightarrow> Some (J_string v, rest)))"

text \<open>
  One member \<^verbatim>\<open>"key": value\<close>, and the members of an object up to its closing brace.
  The recursion is bounded by a counter that every member uses up; the length of the
  text is enough, since a member takes more than one character.
\<close>

definition json_pair :: "string \<Rightarrow> ((string \<times> json) \<times> string) option" where
  "json_pair s =
     (case json_string (skip_ws s) of
        None \<Rightarrow> None
      | Some (k, s1) \<Rightarrow>
          (case skip_ws s1 of
             [] \<Rightarrow> None
           | c # s2 \<Rightarrow>
               if c = CHR '':'' then
                 (case json_member_value (skip_ws s2) of
                    None \<Rightarrow> None
                  | Some (v, s3) \<Rightarrow> Some ((k, v), skip_ws s3))
               else None))"

fun json_object_members ::
  "nat \<Rightarrow> (string \<times> json) list \<Rightarrow> string \<Rightarrow> ((string \<times> json) list \<times> string) option" where
  "json_object_members 0 obj s = None"
| "json_object_members (Suc fuel) obj s =
     (case json_pair s of
        None \<Rightarrow> None
      | Some ((k, v), s1) \<Rightarrow>
          (case s1 of
             [] \<Rightarrow> None
           | c # s2 \<Rightarrow>
               if c = CHR '','' then json_object_members fuel (AList.update k v obj) s2
               else if c = CHR ''}'' then Some (AList.update k v obj, s2)
               else None))"

definition JSON_parse :: "string \<Rightarrow> (string \<times> json) list option" where
  "JSON_parse text =
     (case skip_ws text of
        [] \<Rightarrow> None
      | c # s \<Rightarrow>
          if c = CHR ''{'' then
            (case skip_ws s of
               [] \<Rightarrow> None
             | d # s' \<Rightarrow>
                 if d = CHR ''}'' then (if skip_ws s' = [] then Some [] else None)
                 else (case json_object_members (length text) [] s of
                         None \<Rightarrow> None
                       | Some (obj, rest) \<Rightarrow> if skip_ws rest = [] then Some obj else None))
          else None)"

section \<open>Observations\<close>

text \<open>The texts of all section headings of the form, in document order.\<close>

definition form_titles :: "form_child list \<Rightarrow> string list" where
  "form_titles formEl = concat (map (\<lambda>s. section_titles (se_children s)) (form_sections formEl))"

text \<open>
  What a section element shows, whatever the visibility of its fields: its headings,
  its help texts, and its wrappers with the inline \<^verbatim>\<open>display\<close> taken off.
\<close>

definition without_display :: "field_el \<Rightarrow> field_el" where
  "without_display w = w\<lparr>fe_display := []\<rparr>"

fun section_helps :: "section_child list \<Rightarrow> string list" where
  "section_helps [] = []"
| "section_helps (SectionHelp h # cs) = h # section_helps cs"
| "section_helps (c # cs) = section_helps cs"

definition section_content :: "section_el \<Rightarrow> string list \<times> string list \<times> field_el list" where
  "section_content s =
     (section_titles (se_children s), section_helps (se_children s),
      map without_display (section_fields (se_children s)))"

text \<open>
  The controller of a dependent field: the control of the form that carries the given
  name, the last one in document order if several do.
\<close>

definition controller_of :: "form_child list \<Rightarrow> string \<Rightarrow> control option" where
  "controller_of formEl name = List.find (\<lambda>c. ctl_name c = name) (rev (form_controls formEl))"

text \<open>
  The visibility rule holds in a form: every wrapper that carries its visibility
  metadata, with a controller id that is not empty and names a control, is shown if
  the current value of that control equals the recorded target, and hidden by
  \<^verbatim>\<open>display: none\<close> if not.
\<close>

definition visibility_settled :: "form_child list \<Rightarrow> bool" where
  "visibility_settled formEl =
     (\<forall>w \<in> set (form_fields formEl). \<forall>c t ctl.
        fe_visibleIfField w = Some c \<and> fe_visibleIfEquals w = Some t \<and> c \<noteq> [] \<and>
        controller_of formEl c = Some ctl \<longrightarrow>
        fe_display w = (if value_of ctl = t then [] else ''none'') \<and>
        visible w = (value_of ctl = t))"

text \<open>
  What the visibility rule reads of a wrapper and of a control, and both together for
  the wrapper of a field.
\<close>

definition wrapper_view :: "field_el \<Rightarrow> string option \<times> string option \<times> string" where
  "wrapper_view w = (fe_visibleIfField w, fe_visibleIfEquals w, fe_display w)"

definition control_view :: "control \<Rightarrow> string \<times> string" where
  "control_view c = (ctl_name c, value_of c)"

definition field_view :: "field_el \<Rightarrow> (string option \<times> string option \<times> string) \<times> (string \<times> string) option" where
  "field_view w = (wrapper_view w, map_option control_view (fe_control w))"

text \<open>
  What never changes of a wrapper once the form is rendered: its field id, its
  visibility metadata, and the name, the id and the tag of its control.
\<close>

definition skeleton ::
  "field_el \<Rightarrow> string \<times> string option \<times> string option \<times> (string \<times> string \<times> tag) option" where
  "skeleton w =
     (fe_fieldId w, fe_visibleIfField w, fe_visibleIfEquals w,
      map_option (\<lambda>c. (ctl_name c, ctl_id c, ctl_tag c)) (fe_control w))"

text \<open>No control of the form carries the given id, or the given name.\<close>

definition no_control_id :: "string \<Rightarrow> form_child list \<Rightarrow> bool" where
  "no_control_id i formEl = (\<forall>c \<in> set (form_controls formEl). ctl_id c \<noteq> i)"

definition no_control_named :: "string \<Rightarrow> field_el list \<Rightarrow> bool" where
  "no_control_named n field_els = (\<forall>c \<in> set (List.map_filter fe_control field_els). ctl_name c \<noteq> n)"

text \<open>
  A form in which no control is named \<^verbatim>\<open>__proto__\<close> and none carries the id of the
  validation summary.
\<close>

definition plain_form :: "form_child list \<Rightarrow> bool" where
  "plain_form formEl =
     (no_control_named ''__proto__'' (form_fields formEl) \<and>
      no_control_id ''validation-summary'' formEl)"

text \<open>
  The index of the last wrapper, counted from \<open>k\<close>, whose control carries the given
  name; and what \<^verbatim>\<open>fieldMap\<close> yields when no control is named \<^verbatim>\<open>__proto__\<close>: the last
  control of the name, or the member that \<^verbatim>\<open>Object.prototype\<close> holds under it.
\<close>

fun last_named :: "nat \<Rightarrow> field_el list \<Rightarrow> string \<Rightarrow> nat option" where
  "last_named k [] name = None"
| "last_named k (f # fs) name =
     (case last_named (Suc k) fs name of
        Some j \<Rightarrow> Some j
      | None \<Rightarrow> (case fe_control f of
                   None \<Rightarrow> None
                 | Some c \<Rightarrow> if ctl_name c = name then Some k else None))"

definition plain_get :: "field_el list \<Rightarrow> string \<Rightarrow> lookup" where
  "plain_get field_els key =
     (case List.find (\<lambda>c. ctl_name c = key) (rev (List.map_filter fe_control field_els)) of
        Some c \<Rightarrow> Control c
      | None \<Rightarrow> if key \<in> set Object_prototype_members then Inherited else Undefined)"

text \<open>
  The form that \<^verbatim>\<open>renderForm\<close> leaves: the children of the host form, the section
  elements and the submit button, after \<^verbatim>\<open>updateVisibility\<close> has run on them, or as they
  are if \<^verbatim>\<open>applyVisibilityRules\<close> was left before.
\<close>

definition assembled :: "formConfig \<Rightarrow> query \<Rightarrow> page \<Rightarrow> form_child list" where
  "assembled config params st =
     pg_form st @ map SectionEl (renderSections config (or_else (q_role params) ''user'')) @
     [SubmitButton ''Submit Incident'']"

text \<open>The validation summary as it is after a failed submit that created it.\<close>

definition summary_shown :: summary_el where
  "summary_shown =
     \<lparr>sm_id = ''validation-summary'', sm_classes = [''validation-summary'', ''show''],
      sm_text = validation_message\<rparr>"

text \<open>The fields of a section and of a configuration, in configuration order.\<close>

definition fields_of :: "sectionSpec \<Rightarrow> fieldSpec list" where
  "fields_of s = (case s_fields s of None \<Rightarrow> [] | Some fs \<Rightarrow> fs)"

definition config_fields :: "formConfig \<Rightarrow> fieldSpec list" where
  "config_fields config = concat (map fields_of (cfg_sections config))"

text \<open>
  The fields of a configuration that are rendered with a control under a role.
\<close>

definition rendered_fields :: "formConfig \<Rightarrow> string \<Rightarrow> fieldSpec list" where
  "rendered_fields config role = filter (\<lambda>f. \<not> permission_denied f role) (config_fields config)"

text \<open>
  Form collection in the words of the platform's rules.  A control is successful, and
  is collected, if it has a name and is not a button; a \<^verbatim>\<open>select\<close> moreover only with a
  selected option, a checkbox or radio button only when checked.  What is collected
  for it is its current value, but for a file input, for which it is the file, and
  for a hidden input named \<^verbatim>\<open>_charset_\<close>, for which it is the name of the encoding.
\<close>

definition successful :: "control \<Rightarrow> bool" where
  "successful c =
     (ctl_name c \<noteq> [] \<and>
      (ctl_tag c = SELECT \<longrightarrow> ctl_selected c < length (ctl_options c)) \<and>
      (ctl_tag c = INPUT \<longrightarrow>
         input_kind c \<notin> set button_kinds \<and> (input_kind c \<in> set checked_kinds \<longrightarrow> ctl_checked c)))"

definition is_file_input :: "control \<Rightarrow> bool" where
  "is_file_input c = (ctl_tag c = INPUT \<and> input_kind c = ''file'')"

definition is_charset_input :: "control \<Rightarrow> bool" where
  "is_charset_input c =
     (ctl_tag c = INPUT \<and> input_kind c = ''hidden'' \<and> map ascii_lower (ctl_name c) = ''_charset_'')"

definition submitted_value :: "control \<Rightarrow> entry_value" where
  "submitted_value c =
     (if is_file_input c then File (case ctl_file c of None \<Rightarrow> [] | Some f \<Rightarrow> f)
      else if is_charset_input c then Str ''UTF-8''
      else Str (value_of c))"

text \<open>
  The controls whose entry becomes a property of \<^verbatim>\<open>data\<close> when no file takes the place of
  its prototype: the successful ones with a name other than \<^verbatim>\<open>__proto__\<close>.  And the
  controls for which that property is the current value of the control.
\<close>

definition collected :: "control \<Rightarrow> bool" where
  "collected c = (successful c \<and> ctl_name c \<noteq> ''__proto__'')"

definition plainly_collected :: "control \<Rightarrow> bool" where
  "plainly_collected c = (collected c \<and> \<not> is_file_input c \<and> \<not> is_charset_input c)"

definition file_prototype :: "control list \<Rightarrow> bool" where
  "file_prototype cs = list_ex (\<lambda>c. is_file_input c \<and> ctl_name c = ''__proto__'') cs"

text \<open>What \<^verbatim>\<open>JSON.parse\<close> reads back for a collected value.\<close>

definition json_of :: "entry_value \<Rightarrow> json" where
  "json_of v = (case v of Str s \<Rightarrow> J_string s | File f \<Rightarrow> J_object [])"

text \<open>
  The mapping from the names of controls to what is collected for them, and the
  mapping to their current values, a later control of the same name replacing an
  earlier one; and the latter for all the controls of a form, which \<^verbatim>\<open>createField\<close>
  names by the field ids.
\<close>

definition submitted_of :: "control list \<Rightarrow> (string \<rightharpoonup> json)" where
  "submitted_of cs = map_of (rev (map (\<lambda>c. (ctl_name c, json_of (submitted_value c))) cs))"

definition values_of :: "control list \<Rightarrow> (string \<rightharpoonup> string)" where
  "values_of cs = map_of (rev (map (\<lambda>c. (ctl_name c, value_of c)) cs))"

definition interactive_values :: "form_child list \<Rightarrow> (string \<rightharpoonup> string)" where
  "interactive_values formEl = values_of (form_controls formEl)"

section \<open>Example documents\<close>

text \<open>
  An excerpt of the interfaces of a form control, the same for the three tags, and
  of the attributes of a file.
\<close>

definition ex_interface :: "tag \<Rightarrow> string \<Rightarrow> member" where
  "ex_interface t key =
     (if key \<in> set [''value'', ''name'', ''id'', ''title'', ''className'', ''required''] then Attribute
      else if key \<in> set [''form'', ''labels'', ''validity'', ''tagName''] then Readonly_attribute
      else if key \<in> set [''click'', ''focus'', ''blur'', ''checkValidity''] then Method
      else if key = ''ELEMENT_NODE'' then Constant
      else No_member)"

definition ex_file_attribute :: "string \<Rightarrow> bool" where
  "ex_file_attribute key = (key \<in> set [''name'', ''lastModified'', ''size'', ''type''])"

text \<open>
  The host page before the script runs: empty mount points, the output area hidden,
  no listener attached.
\<close>

definition host_page :: page where
  "host_page =
     \<lparr>pg_metadata = [], pg_form = [], pg_output_classes = [''hidden''], pg_output_json = [],
      pg_console = [], pg_submit_listener = False, pg_change_listeners = False,
      pg_interface = ex_interface, pg_file_attribute = ex_file_attribute\<rparr>"

definition no_query :: query where
  "no_query = \<lparr>q_form = None, q_lang = None, q_role = None\<rparr>"

text \<open>A field that only the role \<^verbatim>\<open>admin\<close> may see.\<close>

definition ex_admin_field :: fieldSpec where
  "ex_admin_field =
     \<lparr>f_id = ''notes'', f_label = ''Notes'', f_type = Some ''text'', f_required = False,
      f_placeholder = None, f_helpText = None, f_options = None, f_rows = None,
      f_permissions = Some \<lparr>roles = Some [''admin'']\<rparr>, f_visibleIf = None\<rparr>"

text \<open>A field of a given type string, open to every role.\<close>

definition ex_typed_field :: "string \<Rightarrow> fieldSpec" where
  "ex_typed_field t =
     \<lparr>f_id = ''agree'', f_label = ''Agree'', f_type = Some t, f_required = False,
      f_placeholder = None, f_helpText = None, f_options = None, f_rows = None,
      f_permissions = None, f_visibleIf = None\<rparr>"

text \<open>
  Four sections without fields: orders 2, none, 1 and 0, in this order, with section
  numbers switched on or off.
\<close>

definition ex_section :: "string \<Rightarrow> int option \<Rightarrow> sectionSpec" where
  "ex_section l n = \<lparr>s_label = l, s_order = n, s_helpText = None, s_fields = None\<rparr>"

definition ex_sections_config :: "bool \<Rightarrow> formConfig" where
  "ex_sections_config nums =
     \<lparr>cfg_title = ''Incident'', cfg_description = ''Report an incident'',
      cfg_languages = None, cfg_layout = Some \<lparr>showSectionNumbers = nums\<rparr>,
      cfg_sections = [ex_section ''Resolution'' (Some 2), ex_section ''General'' None,
                      ex_section ''Details'' (Some 1), ex_section ''Notes'' (Some 0)]\<rparr>"

text \<open>A request that is answered with status 404.\<close>

definition ex_fetch_404 :: "string \<Rightarrow> response promise" where
  "ex_fetch_404 file = Fulfilled \<lparr>rs_ok = False, rs_statusText = ''Not Found'', rs_json = None\<rparr>"

text \<open>A request that fails on the network: the promise of \<^verbatim>\<open>fetch\<close> is rejected.\<close>

definition ex_fetch_failed :: "string \<Rightarrow> response promise" where
  "ex_fetch_failed file = Rejected"

text \<open>
  A form of one section with the given fields; the form of the specification's
  scenario A: two sections of order 2 and 1, in this order, with a field each; and
  scenario B: a select \<^verbatim>\<open>b\<close> with the options \<^verbatim>\<open>x\<close> and \<^verbatim>\<open>y\<close>, and a field \<^verbatim>\<open>c\<close> that
  is visible if \<^verbatim>\<open>b\<close> equals \<^verbatim>\<open>y\<close>; \<open>ex_mounted_b\<close> is the page after it is rendered.
\<close>

definition ex_field :: "string \<Rightarrow> string \<Rightarrow> fieldSpec" where
  "ex_field i t =
     \<lparr>f_id = i, f_label = i, f_type = Some t, f_required = False,
      f_placeholder = None, f_helpText = None, f_options = None, f_rows = None,
      f_permissions = None, f_visibleIf = None\<rparr>"

definition ex_form :: "fieldSpec list \<Rightarrow> formConfig" where
  "ex_form fs =
     \<lparr>cfg_title = ''Incident'', cfg_description = ''Report an incident'',
      cfg_languages = None, cfg_layout = None,
      cfg_sections = [\<lparr>s_label = ''Main'', s_order = None, s_helpText = None, s_fields = Some fs\<rparr>]\<rparr>"

definition ex_scenario_a :: formConfig where
  "ex_scenario_a =
     \<lparr>cfg_title = ''Incident'', cfg_description = ''Report an incident'',
      cfg_languages = None, cfg_layout = None,
      cfg_sections =
        [\<lparr>s_label = ''Second'', s_order = Some 2, s_helpText = None,
          s_fields = Some [ex_field ''b'' ''text'']\<rparr>,
         \<lparr>s_label = ''First'', s_order = Some 1, s_helpText = None,
          s_fields = Some [ex_field ''a'' ''text'']\<rparr>]\<rparr>"

definition ex_scenario_b :: formConfig where
  "ex_scenario_b =
     ex_form [(ex_field ''b'' ''select'')\<lparr>f_options := Some [''x'', ''y'']\<rparr>,
              (ex_field ''c'' ''text'')\<lparr>f_visibleIf := Some \<lparr>vi_field = ''b'', vi_equals = ''y''\<rparr>\<rparr>]"

definition ex_mounted_b :: page where
  "ex_mounted_b = renderForm ex_scenario_b no_query host_page"

text \<open>
  A form whose first field is reserved to \<^verbatim>\<open>admin\<close> and carries the given id, and whose
  second field depends on the first.
\<close>

definition ex_admin_only :: "fieldSpec \<Rightarrow> fieldSpec" where
  "ex_admin_only f = f\<lparr>f_permissions := Some \<lparr>roles = Some [''admin'']\<rparr>\<rparr>"

definition ex_depends :: "string \<Rightarrow> string \<Rightarrow> fieldSpec \<Rightarrow> fieldSpec" where
  "ex_depends c t f = f\<lparr>f_visibleIf := Some \<lparr>vi_field = c, vi_equals = t\<rparr>\<rparr>"

definition ex_suppressed_controller :: "string \<Rightarrow> formConfig" where
  "ex_suppressed_controller i =
     ex_form [ex_admin_only (ex_field i ''text''),
              ex_depends i ''yes'' (ex_field ''details'' ''text'')]"

text \<open>
  A form whose first field has the empty id and whose second field depends on it,
  and the page after it is rendered.
\<close>

definition ex_empty_id :: formConfig where
  "ex_empty_id = ex_form [ex_field [] ''text'', ex_depends [] ''x'' (ex_field ''details'' ''text'')]"

definition ex_mounted_empty_id :: page where
  "ex_mounted_empty_id = renderForm ex_empty_id no_query host_page"

text \<open>Scenario C of the specification: one required text field, rendered.\<close>

definition ex_scenario_c :: formConfig where
  "ex_scenario_c = ex_form [(ex_field ''name'' ''text'')\<lparr>f_required := True\<rparr>]"

definition ex_mounted_c :: page where
  "ex_mounted_c = renderForm ex_scenario_c no_query host_page"

text \<open>A form whose one field is required and of the type \<^verbatim>\<open>hidden\<close>, rendered.\<close>

definition ex_mounted_h :: page where
  "ex_mounted_h =
     renderForm (ex_form [(ex_field ''token'' ''hidden'')\<lparr>f_required := True\<rparr>]) no_query host_page"

text \<open>
  Scenario D of the specification: a field \<^verbatim>\<open>name\<close> and a field \<^verbatim>\<open>secret\<close> reserved to
  \<^verbatim>\<open>admin\<close>, rendered for the role \<^verbatim>\<open>user\<close>, and the page after \<^verbatim>\<open>Ann\<close> was typed into
  the first field.
\<close>

definition ex_scenario_d :: formConfig where
  "ex_scenario_d = ex_form [ex_field ''name'' ''text'', ex_admin_only (ex_field ''secret'' ''text'')]"

definition ex_mounted_d :: page where
  "ex_mounted_d = renderForm ex_scenario_d no_query host_page"

definition ex_filled_d :: page where
  "ex_filled_d = run [Type_text 0 ''Ann'' False] ex_mounted_d"

text \<open>A form whose only field is a select without options, rendered.\<close>

definition ex_mounted_e :: page where
  "ex_mounted_e = renderForm (ex_form [ex_field ''severity'' ''select'']) no_query host_page"

text \<open>
  A form with two fields of the same id, after \<^verbatim>\<open>first\<close> was typed into the first and
  \<^verbatim>\<open>second\<close> into the second.
\<close>

definition ex_filled_twice :: page where
  "ex_filled_twice =
     run [Type_text 0 ''first'' False, Type_text 1 ''second'' False]
       (renderForm (ex_form [ex_field ''note'' ''text'', ex_field ''note'' ''textarea'']) no_query host_page)"

text \<open>
  A form with a checkbox, a file input and a text field, after \<^verbatim>\<open>Ann\<close> was typed into
  the text field; the checkbox is not checked and no file is chosen.
\<close>

definition ex_filled_f :: page where
  "ex_filled_f =
     run [Type_text 2 ''Ann'' False]
       (renderForm (ex_form [ex_field ''agree'' ''checkbox'', ex_field ''upload'' ''file'',
                             ex_field ''name'' ''text'']) no_query host_page)"

text \<open>
  A form whose first field is named \<^verbatim>\<open>__proto__\<close> and whose second field depends on it,
  rendered; and a form whose one field, a required \<^verbatim>\<open>textarea\<close>, has the id of the
  validation summary, rendered.
\<close>

definition ex_mounted_proto :: page where
  "ex_mounted_proto =
     renderForm (ex_form [ex_field ''__proto__'' ''text'',
                          ex_depends ''__proto__'' ''yes'' (ex_field ''details'' ''text'')])
       no_query host_page"

definition ex_mounted_summary_id :: page where
  "ex_mounted_summary_id =
     renderForm (ex_form [(ex_field ''validation-summary'' ''textarea'')\<lparr>f_required := True\<rparr>])
       no_query host_page"

section \<open>createField: the two outcomes\<close>

lemma createField_denied:
  "permission_denied field userRole \<Longrightarrow>
   createField field userRole =
     \<lparr>fe_classes = [''field'', ''permission-hidden''], fe_fieldId = f_id field,
      fe_visibleIfField = None, fe_visibleIfEquals = None,
      fe_label = None, fe_control = None, fe_help = None, fe_display = []\<rparr>"
  by (simp add: createField_def)

lemma createField_allowed:
  "\<not> permission_denied field userRole \<Longrightarrow>
   createField field userRole =
     \<lparr>fe_classes = [''field''], fe_fieldId = f_id field,
      fe_visibleIfField = map_option vi_field (f_visibleIf field),
      fe_visibleIfEquals = map_option vi_equals (f_visibleIf field),
      fe_label = Some \<lparr>lbl_for = f_id field, lbl_text = f_label field,
                        lbl_required = f_required field\<rparr>,
      fe_control = Some ((buildInput field)
                         \<lparr>ctl_id := f_id field, ctl_name := f_id field,
                          ctl_placeholder := (if truthy (f_placeholder field)
                                              then f_placeholder field else None),
                          ctl_required := f_required field\<rparr>),
      fe_help = (if truthy (f_helpText field) then f_helpText field else None),
      fe_display = []\<rparr>"
  by (simp add: createField_def Let_def)

lemma permission_denied_iff:
  "permission_denied field userRole =
     (\<exists>p. f_permissions field = Some p \<and> userRole \<notin> role_set p)"
  by (auto simp: permission_denied_def role_set_def split: option.splits)

lemma buildInput_other:
  "f_type field \<noteq> Some ''textarea'' \<Longrightarrow> f_type field \<noteq> Some ''select'' \<Longrightarrow>
   buildInput field = set_type (or_else (f_type field) ''text'') (createControl INPUT)"
  by (simp add: buildInput_def)

lemma set_type_simps [simp]:
  "ctl_tag (set_type t c) = ctl_tag c"
  "ctl_type (set_type t c) = Some t"
  "ctl_name (set_type t c) = ctl_name c"
  "ctl_id (set_type t c) = ctl_id c"
  by (simp_all add: set_type_def)

lemma is_text_input_iff:
  "is_text_input ((set_type t (createControl INPUT))\<lparr>ctl_id := i, ctl_name := n,
       ctl_placeholder := p, ctl_required := r\<rparr>) =
   (map ascii_lower t \<notin> set input_kinds - {''text''})"
  by (auto simp: is_text_input_def input_type_state_def createControl_def set_type_def)

section \<open>Sections and headings of the rendered form\<close>

text \<open>The insertion by the comparator is the insertion by the key \<open>order_or_0\<close>.\<close>

lemma insert_by_compare_order: "insert_by compare_order x ys = insort_key order_or_0 x ys"
  by (induction ys) (simp_all add: compare_order_def)

lemma sorted_sections_sort_key: "sorted_sections config = sort_key order_or_0 (cfg_sections config)"
proof -
  have "foldr (insert_by compare_order) xs [] = foldr (insort_key order_or_0) xs []" for xs
    by (induction xs) (simp_all add: insert_by_compare_order)
  then show ?thesis by (simp add: sorted_sections_def sort_by_def sort_key_def)
qed

lemma section_titles_append: "section_titles (a @ b) = section_titles a @ section_titles b"
  by (induction a rule: section_titles.induct) simp_all

lemma section_titles_fields: "section_titles (map (\<lambda>x. FieldEl (g x)) xs) = []"
  by (induction xs) simp_all

lemma section_titles_map: "section_titles (map (section_map g) cs) = section_titles cs"
  by (induction cs rule: section_titles.induct) simp_all

lemma form_sections_append: "form_sections (a @ b) = form_sections a @ form_sections b"
  by (induction a rule: form_sections.induct) simp_all

lemma form_sections_SectionEl: "form_sections (map (\<lambda>x. SectionEl (g x)) xs) = map g xs"
  by (induction xs) simp_all

lemma form_sections_map:
  "form_sections (map (form_map g) formEl) =
   map (\<lambda>s. s\<lparr>se_children := map (section_map g) (se_children s)\<rparr>) (form_sections formEl)"
  by (induction formEl rule: form_sections.induct) simp_all

lemma titles_renderSection:
  "section_titles (se_children (renderSection config userRole index section)) =
   [sectionTitle config index section]"
  by (simp add: renderSection_def section_titles_append section_titles_fields split: option.split)

text \<open>
  Writing to the wrappers in document order changes no heading and no help text, and
  of the wrappers nothing that the function written leaves as it is.
\<close>

lemma section_titles_imap: "section_titles (section_imap g k cs) = section_titles cs"
  by (induction g k cs rule: section_imap.induct) simp_all

lemma section_helps_imap: "section_helps (section_imap g k cs) = section_helps cs"
  by (induction g k cs rule: section_imap.induct) simp_all

lemma section_fields_imap:
  "section_fields (section_imap g k cs) = map (\<lambda>(i, w). g i w) (enumerate k (section_fields cs))"
  by (induction g k cs rule: section_imap.induct) simp_all

lemma form_sections_imap:
  assumes "\<And>i w. without_display (g i w) = without_display w"
  shows "map section_content (form_sections (form_imap g k formEl)) =
         map section_content (form_sections formEl)"
  using assms
proof (induction g k formEl rule: form_imap.induct)
  case (2 g k s cs)
  have "map without_display (map (\<lambda>(i, w). g i w) (enumerate n xs)) = map without_display xs" for xs n
    using 2(2) by (induction xs arbitrary: n) auto
  then show ?case
    using 2 by (simp add: section_content_def section_titles_imap section_helps_imap
        section_fields_imap)
qed simp_all

lemma form_titles_imap:
  "map (\<lambda>s. section_titles (se_children s)) (form_sections (form_imap g k formEl)) =
   map (\<lambda>s. section_titles (se_children s)) (form_sections formEl)"
  by (induction g k formEl rule: form_imap.induct) (simp_all add: section_titles_imap)

lemma form_fields_imap:
  "form_fields (form_imap g k formEl) = map (\<lambda>(i, w). g i w) (enumerate k (form_fields formEl))"
proof (induction g k formEl rule: form_imap.induct)
  case (2 g k s cs)
  then show ?case
    by (simp add: form_fields_def section_fields_imap enumerate_append_eq add.commute)
qed (simp_all add: form_fields_def)

lemma map_fields_imap:
  assumes "\<And>i w. h (g i w) = h w"
  shows "map h (form_fields (form_imap g k formEl)) = map h (form_fields formEl)"
proof -
  have "map h (map (\<lambda>(i, w). g i w) (enumerate n xs)) = map h xs" for xs n
    using assms by (induction xs arbitrary: n) auto
  then show ?thesis by (simp only: form_fields_imap)
qed

text \<open>
  The content of the sections: \<^verbatim>\<open>updateVisibility\<close> writes nothing but \<^verbatim>\<open>style.display\<close>.
\<close>

lemma without_display_update [simp]: "without_display (update_wrapper get w) = without_display w"
  by (simp add: without_display_def update_wrapper_def split: option.splits lookup.splits)

lemma without_display_createField [simp]: "without_display (createField f r) = createField f r"
  by (simp add: without_display_def createField_def Let_def)

lemma section_helps_append: "section_helps (a @ b) = section_helps a @ section_helps b"
  by (induction a rule: section_helps.induct) simp_all

lemma section_helps_fields: "section_helps (map (\<lambda>x. FieldEl (g x)) xs) = []"
  by (induction xs) simp_all

lemma section_fields_append: "section_fields (a @ b) = section_fields a @ section_fields b"
  by (induction a rule: section_fields.induct) simp_all

lemma section_fields_FieldEl: "section_fields (map (\<lambda>x. FieldEl (g x)) xs) = map g xs"
  by (induction xs) simp_all

lemma content_renderSection:
  "section_content (renderSection config userRole index section) =
   ([sectionTitle config index section],
    (case s_helpText section of None \<Rightarrow> [] | Some h \<Rightarrow> if h = [] then [] else [h]),
    map (\<lambda>f. createField f userRole) (fields_of section))"
  by (simp add: section_content_def renderSection_def section_titles_append section_titles_fields
      section_helps_append section_helps_fields section_fields_append
      section_fields_FieldEl fields_of_def o_def split: option.split)

lemma content_updateVisibility:
  "map section_content (form_sections (updateVisibility interface formEl)) =
   map section_content (form_sections formEl)"
  unfolding updateVisibility_def Let_def by (rule form_sections_imap) simp

lemma titles_updateVisibility:
  "map (\<lambda>s. section_titles (se_children s)) (form_sections (updateVisibility interface formEl)) =
   map (\<lambda>s. section_titles (se_children s)) (form_sections formEl)"
  by (simp add: updateVisibility_def Let_def form_titles_imap)

lemma form_renderForm:
  "pg_form (renderForm config params st) =
     (if fm_thrown (fieldMap_of (pg_interface st) (form_fields (assembled config params st)))
      then assembled config params st
      else updateVisibility (pg_interface st) (assembled config params st))"
  by (simp add: renderForm_def applyVisibilityRules_def Let_def assembled_def)

lemma content_renderForm:
  "map section_content (form_sections (pg_form (renderForm config params st))) =
   map section_content (form_sections (pg_form st)) @
   map (\<lambda>(i, s). ([sectionTitle config i s],
                    (case s_helpText s of None \<Rightarrow> [] | Some h \<Rightarrow> if h = [] then [] else [h]),
                    map (\<lambda>f. createField f (or_else (q_role params) ''user'')) (fields_of s)))
     (enumerate 0 (sorted_sections config))"
  by (simp add: form_renderForm content_updateVisibility assembled_def
      form_sections_append form_sections_SectionEl renderSections_def content_renderSection
      o_def split_def)

lemma titles_renderForm:
  "map (\<lambda>s. section_titles (se_children s)) (form_sections (pg_form (renderForm config params st))) =
   map (\<lambda>s. section_titles (se_children s)) (form_sections (pg_form st)) @
   map (\<lambda>(i, s). [sectionTitle config i s]) (enumerate 0 (sorted_sections config))"
  by (simp add: form_renderForm titles_updateVisibility assembled_def
      form_sections_append form_sections_SectionEl renderSections_def titles_renderSection
      o_def split_def)

lemma ex_sorted:
  "sorted_sections (ex_sections_config nums) =
     [ex_section ''General'' None, ex_section ''Notes'' (Some 0),
      ex_section ''Details'' (Some 1), ex_section ''Resolution'' (Some 2)]"
  by (simp add: sorted_sections_def sort_by_def ex_sections_config_def compare_order_def
      order_or_0_def ex_section_def)

text \<open>\<open>string_of_nat\<close> writes the decimal numeral: reading the digits gives the number back.\<close>

lemma digit_value_nth: "d < 10 \<Longrightarrow> digit_value (''0123456789'' ! d) = d"
  by (simp add: digit_value_def numeral_eq_Suc less_Suc_eq nth_Cons') auto

lemma nat_of_digits_snoc: "nat_of_digits (s @ [c]) = 10 * nat_of_digits s + digit_value c"
  by (simp add: nat_of_digits_def)

lemma string_of_nat_decimal: "nat_of_digits (string_of_nat n) = n"
proof (induction n rule: string_of_nat.induct)
  case (1 n)
  show ?case
  proof (cases "n < 10")
    case True
    then show ?thesis
      using digit_value_nth [of n] by (simp add: nat_of_digits_def)
  next
    case False
    then have "nat_of_digits (string_of_nat n) =
        10 * nat_of_digits (string_of_nat (n div 10)) + digit_value (''0123456789'' ! (n mod 10))"
      by (subst string_of_nat.simps) (simp add: nat_of_digits_snoc del: string_of_nat.simps)
    with False 1 show ?thesis
      using digit_value_nth [of "n mod 10"] by simp
  qed
qed


section \<open>The wrappers and controls of a form\<close>

lemma section_fields_map: "section_fields (map (section_map g) cs) = map g (section_fields cs)"
  by (induction cs rule: section_fields.induct) simp_all

lemma form_fields_map: "form_fields (map (form_map g) formEl) = map g (form_fields formEl)"
  by (simp add: form_fields_def form_sections_map section_fields_map o_def map_concat)

lemma find_append_case:
  "List.find p (xs @ ys) = (case List.find p xs of None \<Rightarrow> List.find p ys | Some x \<Rightarrow> Some x)"
  by (induction xs) simp_all

lemma form_fields_simps [simp]:
  "form_fields [] = []"
  "form_fields (SectionEl s # cs) = section_fields (se_children s) @ form_fields cs"
  "form_fields (SubmitButton b # cs) = form_fields cs"
  "form_fields (SummaryEl m # cs) = form_fields cs"
  by (simp_all add: form_fields_def)

lemma form_fields_append: "form_fields (a @ b) = form_fields a @ form_fields b"
  by (simp add: form_fields_def form_sections_append)

lemma section_fields_upd:
  "section_fields (section_upd k g cs) = (section_fields cs)[k := g (section_fields cs ! k)]"
proof (induction k g cs rule: section_upd.induct)
  case (2 k g w cs)
  then show ?case by (cases k) simp_all
qed simp_all

lemma form_fields_upd:
  "form_fields (form_upd k g formEl) = (form_fields formEl)[k := g (form_fields formEl ! k)]"
proof (induction k g formEl rule: form_upd.induct)
  case (2 k g s cs)
  then show ?case
    by (simp add: Let_def section_fields_upd list_update_append nth_append)
qed simp_all

lemma map_filter_append: "List.map_filter f (xs @ ys) = List.map_filter f xs @ List.map_filter f ys"
  by (simp add: List.map_filter_def)

lemma form_controls_Cons [simp]:
  "form_controls (SectionEl s # cs) =
     List.map_filter fe_control (section_fields (se_children s)) @ form_controls cs"
  "form_controls (SubmitButton b # cs) = form_controls cs"
  "form_controls (SummaryEl m # cs) = form_controls cs"
  "form_controls [] = []"
  by (simp_all add: form_controls_def map_filter_append)

lemma set_map_filter: "set (List.map_filter f xs) = {y. \<exists>x \<in> set xs. f x = Some y}"
  by (induction xs) (auto split: option.splits)

lemma find_result: "List.find P xs = Some x \<Longrightarrow> P x \<and> x \<in> set xs"
  by (induction xs) (auto split: if_splits)

lemma map_filter_map: "List.map_filter g (map f xs) = List.map_filter (g \<circ> f) xs"
  by (induction xs) (simp_all add: List.map_filter_simps split: option.splits)

lemma map_map_filter: "map h (List.map_filter f xs) = List.map_filter (map_option h \<circ> f) xs"
  by (induction xs) (simp_all add: List.map_filter_simps split: option.splits)

lemma map_filter_cong_map:
  assumes "map f xs = map f ys"
  shows "List.map_filter (g \<circ> f) xs = List.map_filter (g \<circ> f) ys"
  using assms by (simp only: map_filter_map [symmetric])

text \<open>
  The names, the ids and the tags of the controls are read off the skeleton of the
  wrappers.
\<close>

lemma controls_of_skeleton:
  assumes "map skeleton ws = map skeleton ws'"
  shows "map (\<lambda>c. (ctl_name c, ctl_id c, ctl_tag c)) (List.map_filter fe_control ws) =
         map (\<lambda>c. (ctl_name c, ctl_id c, ctl_tag c)) (List.map_filter fe_control ws')"
proof -
  have "map_option (\<lambda>c. (ctl_name c, ctl_id c, ctl_tag c)) \<circ> fe_control =
        (\<lambda>s. snd (snd (snd s))) \<circ> skeleton"
    by (simp add: fun_eq_iff skeleton_def)
  then show ?thesis
    using map_filter_cong_map [OF assms, of "\<lambda>s. snd (snd (snd s))"]
    by (simp add: map_map_filter)
qed

lemma names_of_skeleton:
  assumes "map skeleton ws = map skeleton ws'"
  shows "map ctl_name (List.map_filter fe_control ws) = map ctl_name (List.map_filter fe_control ws')"
proof -
  have "map fst (map (\<lambda>c. (ctl_name c, ctl_id c, ctl_tag c)) (List.map_filter fe_control ws)) =
        map fst (map (\<lambda>c. (ctl_name c, ctl_id c, ctl_tag c)) (List.map_filter fe_control ws'))"
    by (simp only: controls_of_skeleton [OF assms])
  then show ?thesis by (simp add: o_def)
qed

lemma ids_of_skeleton:
  assumes "map skeleton ws = map skeleton ws'"
  shows "map ctl_id (List.map_filter fe_control ws) = map ctl_id (List.map_filter fe_control ws')"
proof -
  have "map (\<lambda>p. fst (snd p)) (map (\<lambda>c. (ctl_name c, ctl_id c, ctl_tag c)) (List.map_filter fe_control ws)) =
        map (\<lambda>p. fst (snd p)) (map (\<lambda>c. (ctl_name c, ctl_id c, ctl_tag c)) (List.map_filter fe_control ws'))"
    by (simp only: controls_of_skeleton [OF assms])
  then show ?thesis by (simp add: o_def)
qed

lemma no_control_named_skeleton:
  assumes "map skeleton ws = map skeleton ws'"
  shows "no_control_named n ws = no_control_named n ws'"
proof -
  have "no_control_named n xs = (n \<notin> set (map ctl_name (List.map_filter fe_control xs)))" for xs
    by (auto simp: no_control_named_def)
  then show ?thesis by (simp only: names_of_skeleton [OF assms])
qed

lemma no_control_id_skeleton:
  assumes "map skeleton (form_fields f) = map skeleton (form_fields f')"
  shows "no_control_id i f = no_control_id i f'"
proof -
  have "no_control_id i x = (i \<notin> set (map ctl_id (List.map_filter fe_control (form_fields x))))" for x
    by (auto simp: no_control_id_def form_controls_def)
  then show ?thesis by (simp only: ids_of_skeleton [OF assms])
qed

lemma no_control_named_simps [simp]:
  "no_control_named n []"
  "no_control_named n (w # ws) =
     ((\<forall>c. fe_control w = Some c \<longrightarrow> ctl_name c \<noteq> n) \<and> no_control_named n ws)"
  by (auto simp: no_control_named_def List.map_filter_simps split: option.splits)


section \<open>Editing one control\<close>

lemma fields_set_control:
  assumes "control_at formEl k = Some c"
  shows "form_fields (set_control k c' formEl) =
         take k (form_fields formEl) @ (form_fields formEl ! k)\<lparr>fe_control := Some c'\<rparr> #
         drop (Suc k) (form_fields formEl)"
    and "form_fields formEl =
         take k (form_fields formEl) @ (form_fields formEl ! k) # drop (Suc k) (form_fields formEl)"
    and "fe_control (form_fields formEl ! k) = Some c"
proof -
  from assms have k: "k < length (form_fields formEl)" and c: "fe_control (form_fields formEl ! k) = Some c"
    by (auto simp: control_at_def split: if_splits)
  show "form_fields (set_control k c' formEl) =
         take k (form_fields formEl) @ (form_fields formEl ! k)\<lparr>fe_control := Some c'\<rparr> #
         drop (Suc k) (form_fields formEl)"
    using k by (simp add: set_control_def form_fields_upd upd_conv_take_nth_drop)
  show "form_fields formEl =
         take k (form_fields formEl) @ (form_fields formEl ! k) # drop (Suc k) (form_fields formEl)"
    using k by (simp add: id_take_nth_drop [symmetric])
  show "fe_control (form_fields formEl ! k) = Some c" by (rule c)
qed

lemma wrapper_view_set_control:
  assumes "control_at formEl k = Some c"
  shows "map wrapper_view (form_fields (set_control k c' formEl)) = map wrapper_view (form_fields formEl)"
proof -
  have "map wrapper_view (form_fields formEl) =
        map wrapper_view (take k (form_fields formEl) @ (form_fields formEl ! k) # drop (Suc k) (form_fields formEl))"
    using fields_set_control(2) [OF assms] by simp
  then show ?thesis
    by (simp add: fields_set_control(1) [OF assms] wrapper_view_def)
qed

lemma controls_set_control:
  assumes "control_at formEl k = Some c"
  shows "form_controls (set_control k c' formEl) =
           List.map_filter fe_control (take k (form_fields formEl)) @ c' #
           List.map_filter fe_control (drop (Suc k) (form_fields formEl))"
    and "form_controls formEl =
           List.map_filter fe_control (take k (form_fields formEl)) @ c #
           List.map_filter fe_control (drop (Suc k) (form_fields formEl))"
proof -
  show "form_controls (set_control k c' formEl) =
           List.map_filter fe_control (take k (form_fields formEl)) @ c' #
           List.map_filter fe_control (drop (Suc k) (form_fields formEl))"
    by (simp add: form_controls_def fields_set_control(1) [OF assms] map_filter_append)
  have "form_controls formEl =
        List.map_filter fe_control
          (take k (form_fields formEl) @ (form_fields formEl ! k) # drop (Suc k) (form_fields formEl))"
    using fields_set_control(2) [OF assms] by (simp add: form_controls_def)
  then show "form_controls formEl =
           List.map_filter fe_control (take k (form_fields formEl)) @ c #
           List.map_filter fe_control (drop (Suc k) (form_fields formEl))"
    by (simp add: map_filter_append fields_set_control(3) [OF assms])
qed

lemma names_set_control:
  assumes "control_at formEl k = Some c" "ctl_name c' = ctl_name c"
  shows "map ctl_name (form_controls (set_control k c' formEl)) = map ctl_name (form_controls formEl)"
proof -
  have "map ctl_name (form_controls formEl) =
        map ctl_name (List.map_filter fe_control (take k (form_fields formEl)) @ c #
           List.map_filter fe_control (drop (Suc k) (form_fields formEl)))"
    using controls_set_control(2) [OF assms(1)] by simp
  then show ?thesis
    by (simp add: controls_set_control(1) [OF assms(1)] assms(2))
qed

lemma control_at_set_control:
  assumes "control_at formEl k = Some c"
  shows "control_at (set_control k c' formEl) k = Some c'"
    and "drop (Suc k) (form_fields (set_control k c' formEl)) = drop (Suc k) (form_fields formEl)"
proof -
  from assms have k: "k < length (form_fields formEl)"
    by (auto simp: control_at_def split: if_splits)
  show "control_at (set_control k c' formEl) k = Some c'"
    using k by (simp add: control_at_def set_control_def form_fields_upd)
  show "drop (Suc k) (form_fields (set_control k c' formEl)) = drop (Suc k) (form_fields formEl)"
    by (simp add: set_control_def form_fields_upd)
qed

lemma skeleton_set_control:
  assumes "control_at formEl k = Some c"
    and "ctl_name c' = ctl_name c" "ctl_id c' = ctl_id c" "ctl_tag c' = ctl_tag c"
  shows "map skeleton (form_fields (set_control k c' formEl)) = map skeleton (form_fields formEl)"
proof -
  have "map skeleton (form_fields formEl) =
        map skeleton (take k (form_fields formEl) @ (form_fields formEl ! k) # drop (Suc k) (form_fields formEl))"
    using fields_set_control(2) [OF assms(1)] by simp
  then show ?thesis
    by (simp add: fields_set_control(1) [OF assms(1)] fields_set_control(3) [OF assms(1)]
        skeleton_def assms(2-4))
qed

lemma skeleton_form_map:
  assumes "\<And>w. skeleton (g w) = skeleton w"
  shows "map skeleton (form_fields (map (form_map g) formEl)) = map skeleton (form_fields formEl)"
  by (simp add: form_fields_map assms)

lemma skeleton_uncheck [simp]: "skeleton (uncheck name w) = skeleton w"
  by (simp add: uncheck_def skeleton_def split: option.splits)

lemma skeleton_uncheck_group:
  "map skeleton (form_fields (uncheck_group name formEl)) = map skeleton (form_fields formEl)"
  by (simp add: uncheck_group_def skeleton_form_map)

lemma skeleton_update [simp]: "skeleton (update_wrapper get w) = skeleton w"
  by (simp add: skeleton_def update_wrapper_def split: option.splits lookup.splits)

lemma skeleton_updateVisibility:
  "map skeleton (form_fields (updateVisibility interface formEl)) = map skeleton (form_fields formEl)"
  unfolding updateVisibility_def Let_def by (rule map_fields_imap) simp

lemma update_wrapper_control [simp]: "fe_control (update_wrapper get w) = fe_control w"
  by (simp add: update_wrapper_def split: option.splits lookup.splits)

lemma update_wrapper_meta [simp]:
  "fe_visibleIfField (update_wrapper get w) = fe_visibleIfField w"
  "fe_visibleIfEquals (update_wrapper get w) = fe_visibleIfEquals w"
  by (simp_all add: update_wrapper_def split: option.splits lookup.splits)

lemma controls_updateVisibility:
  "map fe_control (form_fields (updateVisibility interface formEl)) = map fe_control (form_fields formEl)"
  unfolding updateVisibility_def Let_def by (rule map_fields_imap) simp

lemma form_controls_updateVisibility:
  "form_controls (updateVisibility interface formEl) = form_controls formEl"
  using map_filter_cong_map [OF controls_updateVisibility, of id interface formEl]
  by (simp add: form_controls_def)

lemma controller_of_updateVisibility:
  "controller_of (updateVisibility interface formEl) name = controller_of formEl name"
  by (simp add: controller_of_def form_controls_updateVisibility)


section \<open>The map of the controls when no control is named __proto__\<close>

text \<open>
  Without a control named \<^verbatim>\<open>__proto__\<close> no assignment throws, the prototype stays
  \<^verbatim>\<open>Object.prototype\<close>, and the map holds under every name the last control of that
  name.
\<close>

lemma fieldMap_plain_fold:
  assumes "no_control_named ''__proto__'' fs" "\<not> fm_thrown m" "fm_proto m = None"
  shows "fold (\<lambda>(k, f) m. case fe_control f of
                               None \<Rightarrow> m
                             | Some input \<Rightarrow> fieldMap_assign interface k input m)
           (enumerate n fs) m =
         m\<lparr>fm_own := (\<lambda>name. case last_named n fs name of
                                   Some j \<Rightarrow> Some j
                                 | None \<Rightarrow> fm_own m name)\<rparr>"
  using assms
proof (induction fs arbitrary: n m)
  case Nil
  then show ?case by simp
next
  case (Cons f fs)
  show ?case
  proof (cases "fe_control f")
    case None
    then have "last_named n (f # fs) = last_named (Suc n) fs"
      by (auto simp: fun_eq_iff split: option.splits)
    with None Cons show ?thesis by simp
  next
    case (Some c)
    with Cons.prems have x: "ctl_name c \<noteq> ''__proto__''" and r: "no_control_named ''__proto__'' fs"
      by simp_all
    define m' where "m' = m\<lparr>fm_own := (fm_own m)(ctl_name c \<mapsto> n)\<rparr>"
    have a: "fieldMap_assign interface n c m = m'"
      using x Cons.prems(2,3) by (simp add: fieldMap_assign_def m'_def)
    have "fold (\<lambda>(k, f) m. case fe_control f of
                               None \<Rightarrow> m
                             | Some input \<Rightarrow> fieldMap_assign interface k input m)
            (enumerate (Suc n) fs) m' =
          m'\<lparr>fm_own := (\<lambda>name. case last_named (Suc n) fs name of
                                     Some j \<Rightarrow> Some j
                                   | None \<Rightarrow> fm_own m' name)\<rparr>"
      using r Cons.prems(2,3) by (intro Cons.IH) (simp_all add: m'_def)
    moreover have "(\<lambda>name. case last_named (Suc n) fs name of
                                     Some j \<Rightarrow> Some j
                                   | None \<Rightarrow> fm_own m' name) =
          (\<lambda>name. case last_named n (f # fs) name of Some j \<Rightarrow> Some j | None \<Rightarrow> fm_own m name)"
      by (auto simp: fun_eq_iff Some m'_def split: option.splits)
    ultimately show ?thesis
      by (simp add: Some a) (simp add: m'_def)
  qed
qed

lemma fieldMap_of_plain:
  assumes "no_control_named ''__proto__'' fs"
  shows "fieldMap_of interface fs = \<lparr>fm_own = last_named 0 fs, fm_proto = None, fm_thrown = False\<rparr>"
proof -
  have "(\<lambda>name. case last_named 0 fs name of
                   Some j \<Rightarrow> Some j
                 | None \<Rightarrow> fm_own \<lparr>fm_own = Map.empty, fm_proto = None, fm_thrown = False\<rparr> name) =
        last_named 0 fs"
    by (auto simp: fun_eq_iff split: option.splits)
  then show ?thesis
    unfolding fieldMap_of_def
    by (simp add: fieldMap_plain_fold [OF assms])
qed

lemma last_named_None:
  "(last_named n fs name = None) = (name \<notin> ctl_name ` set (List.map_filter fe_control fs))"
proof (induction fs arbitrary: n)
  case Nil
  then show ?case by (simp add: List.map_filter_simps)
next
  case (Cons f fs)
  have i: "(last_named (Suc n) fs name = None) =
           (name \<notin> ctl_name ` set (List.map_filter fe_control fs))"
    by (rule Cons.IH)
  show ?case
    by (cases "last_named (Suc n) fs name"; cases "fe_control f")
       (use i in \<open>auto simp: List.map_filter_simps\<close>)
qed

lemma last_named_Some:
  assumes "last_named n fs name = Some j"
  shows "n \<le> j \<and> j < n + length fs \<and>
         (\<exists>c. fe_control (fs ! (j - n)) = Some c \<and> ctl_name c = name \<and>
              List.find (\<lambda>c. ctl_name c = name) (rev (List.map_filter fe_control fs)) = Some c)"
  using assms
proof (induction fs arbitrary: n)
  case Nil
  then show ?case by simp
next
  case (Cons f fs)
  show ?case
  proof (cases "last_named (Suc n) fs name")
    case None
    with Cons.prems obtain c where c: "fe_control f = Some c" "ctl_name c = name" "j = n"
      by (auto split: option.splits if_splits)
    from None have "List.find (\<lambda>c. ctl_name c = name) (rev (List.map_filter fe_control fs)) = None"
      by (auto simp: last_named_None find_None_iff)
    with c show ?thesis
      by (simp add: List.map_filter_simps find_append_case)
  next
    case (Some i)
    with Cons.prems have ij: "i = j" by simp
    from Cons.IH [OF Some [unfolded ij]] obtain c where
      b: "Suc n \<le> j" "j < Suc n + length fs" and
      c: "fe_control (fs ! (j - Suc n)) = Some c" "ctl_name c = name"
        "List.find (\<lambda>c. ctl_name c = name) (rev (List.map_filter fe_control fs)) = Some c"
      by blast
    from b have "(f # fs) ! (j - n) = fs ! (j - Suc n)"
      by (simp add: nth_Cons')
    with b c show ?thesis
      by (cases "fe_control f") (simp_all add: List.map_filter_simps find_append_case)
  qed
qed

lemma fieldMap_get_plain:
  assumes "no_control_named ''__proto__'' fs"
  shows "fieldMap_get interface fs (fieldMap_of interface fs) key = plain_get fs key"
proof (cases "last_named 0 fs key")
  case None
  then have "List.find (\<lambda>c. ctl_name c = key) (rev (List.map_filter fe_control fs)) = None"
    by (auto simp: last_named_None find_None_iff)
  with None show ?thesis
    by (simp add: fieldMap_get_def fieldMap_of_plain [OF assms] plain_get_def)
next
  case (Some j)
  from last_named_Some [OF Some] show ?thesis
    by (auto simp: fieldMap_get_def fieldMap_of_plain [OF assms] plain_get_def Some live_control_def)
qed

lemma plain_get_controller:
  "plain_get (form_fields formEl) key =
     (case controller_of formEl key of
        Some c \<Rightarrow> Control c
      | None \<Rightarrow> if key \<in> set Object_prototype_members then Inherited else Undefined)"
  by (simp add: plain_get_def controller_of_def form_controls_def)

lemma plain_never_throws: "\<not> wrapper_throws (plain_get fs) w"
  by (simp add: wrapper_throws_def plain_get_def split: option.splits)

lemma fields_updateVisibility:
  assumes "no_control_named ''__proto__'' (form_fields formEl)"
  shows "form_fields (updateVisibility interface formEl) =
         map (update_wrapper (plain_get (form_fields formEl))) (form_fields formEl)"
proof -
  let ?fs = "form_fields formEl"
  have g: "fieldMap_get interface ?fs (fieldMap_of interface ?fs) = plain_get ?fs"
    by (rule ext) (rule fieldMap_get_plain [OF assms])
  have t: "takeWhile (\<lambda>w. \<not> wrapper_throws (plain_get ?fs) w) ?fs = ?fs"
    by (simp add: plain_never_throws)
  have "map (\<lambda>(i, w). if i < length ?fs then u w else w) (enumerate 0 ?fs) =
        map (\<lambda>(i, w). u w) (enumerate 0 ?fs)" for u :: "field_el \<Rightarrow> field_el"
    by (rule map_cong) (auto simp: in_set_enumerate_eq)
  moreover have "map (\<lambda>(i, w). u w) (enumerate n xs) = map u xs"
    for u :: "field_el \<Rightarrow> field_el" and n xs
    by (induction xs arbitrary: n) simp_all
  ultimately have "map (\<lambda>(i, w). if i < length ?fs then u w else w) (enumerate 0 ?fs) = map u ?fs"
    for u :: "field_el \<Rightarrow> field_el"
    by simp
  then show ?thesis
    by (simp add: updateVisibility_def Let_def g t form_fields_imap)
qed

lemma listens_plain:
  assumes "no_control_named ''__proto__'' (form_fields formEl)"
  shows "listens interface formEl k =
     (case control_at formEl k of
        None \<Rightarrow> False
      | Some c \<Rightarrow> last_named 0 (form_fields formEl) (ctl_name c) = Some k)"
  by (simp add: listens_def fieldMap_of_plain [OF assms] split: option.splits)

lemma last_named_later:
  assumes "k < length fs" "fe_control (fs ! k) = Some c" "last_named n fs (ctl_name c) \<noteq> Some (n + k)"
  shows "ctl_name c \<in> ctl_name ` set (List.map_filter fe_control (drop (Suc k) fs))"
  using assms
proof (induction fs arbitrary: n k)
  case Nil
  then show ?case by simp
next
  case (Cons f fs)
  show ?case
  proof (cases k)
    case 0
    with Cons.prems have f: "fe_control f = Some c" by simp
    with Cons.prems 0 have "last_named (Suc n) fs (ctl_name c) \<noteq> None"
      by (auto split: option.splits)
    then show ?thesis
      by (simp add: 0 last_named_None)
  next
    case (Suc k')
    with Cons.prems have c: "k' < length fs" "fe_control (fs ! k') = Some c" by simp_all
    then have "ctl_name c \<in> ctl_name ` set (List.map_filter fe_control fs)"
      unfolding set_map_filter by force
    then obtain j where j: "last_named (Suc n) fs (ctl_name c) = Some j"
      using last_named_None [of "Suc n" fs "ctl_name c"] by auto
    with Cons.prems(3) Suc have "last_named (Suc n) fs (ctl_name c) \<noteq> Some (Suc n + k')"
      by simp
    from Cons.IH [OF c this] show ?thesis
      by (simp add: Suc)
  qed
qed

section \<open>The visibility rule is established by updateVisibility\<close>

lemma update_wrapper_found:
  assumes "fe_visibleIfField w = Some c" "fe_visibleIfEquals w = Some t" "c \<noteq> []"
    "get c = Control ctl"
  shows "fe_display (update_wrapper get w) = (if value_of ctl = t then [] else ''none'')"
  using assms by (simp add: update_wrapper_def)

lemma settled_updateVisibility:
  assumes "no_control_named ''__proto__'' (form_fields formEl)"
  shows "visibility_settled (updateVisibility interface formEl)"
  unfolding visibility_settled_def
proof (intro ballI allI impI)
  fix w c t ctl
  assume w: "w \<in> set (form_fields (updateVisibility interface formEl))"
    and h: "fe_visibleIfField w = Some c \<and> fe_visibleIfEquals w = Some t \<and> c \<noteq> [] \<and>
            controller_of (updateVisibility interface formEl) c = Some ctl"
  from w obtain w0 where w0: "w0 \<in> set (form_fields formEl)"
    and eq: "w = update_wrapper (plain_get (form_fields formEl)) w0"
    by (auto simp: fields_updateVisibility [OF assms])
  from h eq have "fe_visibleIfField w0 = Some c" "fe_visibleIfEquals w0 = Some t" "c \<noteq> []"
    "plain_get (form_fields formEl) c = Control ctl"
    by (simp_all add: controller_of_updateVisibility plain_get_controller)
  then have "fe_display w = (if value_of ctl = t then [] else ''none'')"
    unfolding eq by (rule update_wrapper_found)
  then show "fe_display w = (if value_of ctl = t then [] else ''none'') \<and>
             visible w = (value_of ctl = t)"
    by (simp add: visible_def)
qed


section \<open>The validation summary\<close>

lemma section_find_None:
  "(section_find i cs = None) = (\<forall>c \<in> set (List.map_filter fe_control (section_fields cs)). ctl_id c \<noteq> i)"
  by (induction i cs rule: section_find.induct) (auto split: option.splits)

lemma section_modify_id: "section_find i cs = None \<Longrightarrow> section_modify i g cs = cs"
  by (induction i g cs rule: section_modify.induct) (auto split: option.splits if_splits)

lemma no_control_id_Cons [simp]:
  "no_control_id i (SectionEl s # cs) = (section_find i (se_children s) = None \<and> no_control_id i cs)"
  "no_control_id i (SubmitButton b # cs) = no_control_id i cs"
  "no_control_id i (SummaryEl m # cs) = no_control_id i cs"
  "no_control_id i []"
  by (auto simp: no_control_id_def section_find_None)

lemma modify_created:
  assumes "getElementById i formEl = None" "sm_id m = i"
  shows "form_modify i g h (formEl @ [SummaryEl m]) = formEl @ [SummaryEl (h m)]"
  using assms
  by (induction i formEl rule: getElementById.induct) (auto split: option.splits if_splits)

lemma modify_found:
  assumes "getElementById i formEl = Some (SummaryNode m)" "sm_id (h m) = i"
  shows "getElementById i (form_modify i g h formEl) = Some (SummaryNode (h m)) \<and>
         length (form_modify i g h formEl) = length formEl"
  using assms
  by (induction i formEl rule: getElementById.induct) (auto split: option.splits if_splits)

lemma no_control_found:
  assumes "no_control_id i formEl"
  shows "getElementById i formEl = None \<or> (\<exists>m. getElementById i formEl = Some (SummaryNode m))"
  using assms
  by (induction i formEl rule: getElementById.induct) (auto split: option.splits)

lemma fields_modify_no_control:
  assumes "no_control_id i formEl"
  shows "form_fields (form_modify i g h formEl) = form_fields formEl"
  using assms
  by (induction i g h formEl rule: form_modify.induct) (auto simp: section_modify_id split: option.splits)

lemma getElementById_append:
  assumes "getElementById i formEl = None"
  shows "getElementById i (formEl @ [SummaryEl m]) = (if sm_id m = i then Some (SummaryNode m) else None)"
  using assms
  by (induction i formEl rule: getElementById.induct) (auto split: option.splits if_splits)

lemma modify_fixed:
  assumes "getElementById i formEl = Some (SummaryNode m)" "h m = m"
  shows "form_modify i g h formEl = formEl"
  using assms
  by (induction i formEl rule: getElementById.induct) (auto split: option.splits if_splits)

lemma no_control_id_append [simp]:
  "no_control_id i (formEl @ [SummaryEl m]) = no_control_id i formEl"
  by (simp add: no_control_id_def form_controls_def form_fields_append)

lemma classList_add_member [simp]: "c \<in> set (classList_add c cs)"
  by (simp add: classList_add_def)

lemma show_summary_found:
  assumes "no_control_id ''validation-summary'' formEl"
  shows "\<exists>m. getElementById ''validation-summary'' (show_summary formEl) = Some (SummaryNode m) \<and>
             sm_text m = validation_message \<and> ''show'' \<in> set (sm_classes m)"
proof (cases "getElementById ''validation-summary'' formEl")
  case None
  then show ?thesis
    by (simp add: show_summary_def createValidationSummary_def modify_created getElementById_append)
next
  case (Some e)
  with no_control_found [OF assms] obtain m where m: "e = SummaryNode m" by auto
  have "sm_id m = ''validation-summary''"
    using Some unfolding m
    by (induction "''validation-summary''" formEl rule: getElementById.induct)
       (auto split: option.splits if_splits)
  then show ?thesis
    using modify_found [of "''validation-summary''" formEl m
        "\<lambda>m. m\<lparr>sm_text := validation_message, sm_classes := classList_add ''show'' (sm_classes m)\<rparr>"]
      Some m
    by (simp add: show_summary_def)
qed

lemma show_summary_created:
  assumes "getElementById ''validation-summary'' formEl = None"
  shows "show_summary formEl = formEl @ [SummaryEl summary_shown]"
  using assms
  by (simp add: show_summary_def createValidationSummary_def modify_created summary_shown_def
      classList_add_def)

lemma show_summary_reused:
  assumes "getElementById ''validation-summary'' formEl \<noteq> None"
  shows "length (show_summary formEl) = length formEl"
proof -
  have "length (form_modify i g h f) = length f" for i g h f
    by (induction i g h f rule: form_modify.induct) (auto split: option.splits)
  with assms show ?thesis by (auto simp: show_summary_def)
qed

lemma show_summary_fields:
  assumes "no_control_id ''validation-summary'' formEl"
  shows "form_fields (show_summary formEl) = form_fields formEl"
  using assms
  by (auto simp: show_summary_def createValidationSummary_def fields_modify_no_control
      form_fields_append split: option.splits)

lemma show_summary_idem:
  assumes "no_control_id ''validation-summary'' formEl"
  shows "show_summary (show_summary formEl) = show_summary formEl"
proof -
  from show_summary_found [OF assms] obtain m where
    m: "getElementById ''validation-summary'' (show_summary formEl) = Some (SummaryNode m)"
      "sm_text m = validation_message" "''show'' \<in> set (sm_classes m)" by blast
  have "m\<lparr>sm_text := validation_message, sm_classes := classList_add ''show'' (sm_classes m)\<rparr> = m"
    using m(2,3) by (simp add: classList_add_def)
  with m(1) show ?thesis
    by (subst show_summary_def) (simp add: modify_fixed)
qed

lemma hide_summary_fields:
  assumes "no_control_id ''validation-summary'' formEl"
  shows "form_fields (hide_summary formEl) = form_fields formEl"
  using assms by (simp add: hide_summary_def fields_modify_no_control)

text \<open>
  Writing to the element found changes of the wrappers only the control of one, and
  nothing that the function written to the control keeps.
\<close>

lemma section_modify_map:
  assumes "\<And>w c. fe_control w = Some c \<Longrightarrow> h (w\<lparr>fe_control := Some (g c)\<rparr>) = h w"
  shows "map h (section_fields (section_modify i g cs)) = map h (section_fields cs)"
  using assms
  by (induction i g cs rule: section_modify.induct) (auto split: option.splits)

lemma form_modify_map:
  assumes "\<And>w c. fe_control w = Some c \<Longrightarrow> h (w\<lparr>fe_control := Some (g c)\<rparr>) = h w"
  shows "map h (form_fields (form_modify i g hh formEl)) = map h (form_fields formEl)"
  using assms
  by (induction i g hh formEl rule: form_modify.induct)
     (auto simp: section_modify_map split: option.splits)

lemma set_textContent_simps [simp]:
  "ctl_name (set_textContent t c) = ctl_name c"
  "ctl_id (set_textContent t c) = ctl_id c"
  "ctl_tag (set_textContent t c) = ctl_tag c"
  by (simp_all add: set_textContent_def split: tag.splits)

lemma skeleton_show_summary:
  "map skeleton (form_fields (show_summary formEl)) = map skeleton (form_fields formEl)"
proof -
  have "map skeleton (form_fields (form_modify i
             (\<lambda>c. (set_textContent validation_message c)
                     \<lparr>ctl_classes := classList_add ''show'' (ctl_classes c)\<rparr>) hh f)) =
        map skeleton (form_fields f)" for i hh f
    by (rule form_modify_map) (simp add: skeleton_def)
  then show ?thesis
    by (simp add: show_summary_def createValidationSummary_def form_fields_append
        split: option.splits)
qed

lemma skeleton_hide_summary:
  "map skeleton (form_fields (hide_summary formEl)) = map skeleton (form_fields formEl)"
  unfolding hide_summary_def by (rule form_modify_map) (simp add: skeleton_def)

lemma skeleton_submit:
  "map skeleton (form_fields (pg_form (submit_listener st))) = map skeleton (form_fields (pg_form st))"
  by (simp add: submit_listener_def skeleton_show_summary skeleton_hide_summary)

lemma fields_submit:
  assumes "no_control_id ''validation-summary'' (pg_form st)"
  shows "form_fields (pg_form (submit_listener st)) = form_fields (pg_form st)"
  using assms by (simp add: submit_listener_def show_summary_fields hide_summary_fields)


section \<open>What every event keeps\<close>

lemma interface_fire_change [simp]:
  "pg_interface (fire_change k st) = pg_interface st"
  "pg_file_attribute (fire_change k st) = pg_file_attribute st"
  "pg_change_listeners (fire_change k st) = pg_change_listeners st"
  "pg_submit_listener (fire_change k st) = pg_submit_listener st"
  by (simp_all add: fire_change_def)

lemma interface_step:
  "pg_interface (step e st) = pg_interface st"
  "pg_file_attribute (step e st) = pg_file_attribute st"
  "pg_change_listeners (step e st) = pg_change_listeners st"
  "pg_submit_listener (step e st) = pg_submit_listener st"
  by (cases e; simp add: submit_listener_def split: option.splits)+

lemma interface_run:
  "pg_interface (run es st) = pg_interface st"
  "pg_file_attribute (run es st) = pg_file_attribute st"
  "pg_change_listeners (run es st) = pg_change_listeners st"
  "pg_submit_listener (run es st) = pg_submit_listener st"
  unfolding run_def by (induction es arbitrary: st; simp add: interface_step)+

lemma skeleton_fire_change [simp]:
  "map skeleton (form_fields (pg_form (fire_change k st))) = map skeleton (form_fields (pg_form st))"
  by (simp add: fire_change_def skeleton_updateVisibility)

lemma control_at_Some:
  "control_at formEl k = Some c \<Longrightarrow> k < length (form_fields formEl) \<and> fe_control (form_fields formEl ! k) = Some c"
  by (auto simp: control_at_def split: if_splits)

lemma control_at_skeleton:
  assumes "map skeleton (form_fields f) = map skeleton (form_fields f')"
    and "control_at f k = Some c"
  shows "\<exists>c'. control_at f' k = Some c' \<and> ctl_name c' = ctl_name c \<and> ctl_id c' = ctl_id c \<and>
              ctl_tag c' = ctl_tag c"
proof -
  from control_at_Some [OF assms(2)] have k: "k < length (form_fields f)"
    and c: "fe_control (form_fields f ! k) = Some c" by simp_all
  from assms(1) have l: "length (form_fields f') = length (form_fields f)"
    using map_eq_imp_length_eq by metis
  from assms(1) k l have "skeleton (form_fields f' ! k) = skeleton (form_fields f ! k)"
    by (metis nth_map)
  with c k l show ?thesis
    by (auto simp: skeleton_def control_at_def)
qed

lemma skeleton_step:
  "map skeleton (form_fields (pg_form (step e st))) = map skeleton (form_fields (pg_form st))"
proof (cases e)
  case (Type_text k v bad)
  show ?thesis
  proof (cases "control_at (pg_form st) k")
    case None
    with Type_text show ?thesis by simp
  next
    case (Some c)
    show ?thesis
      using skeleton_set_control [OF Some, of "c\<lparr>ctl_text := v, ctl_dirty := True, ctl_badInput := bad\<rparr>"]
        Type_text Some
      by simp
  qed
next
  case (Choose k i)
  show ?thesis
  proof (cases "control_at (pg_form st) k")
    case None
    with Choose show ?thesis by simp
  next
    case (Some c)
    show ?thesis
      using skeleton_set_control [OF Some, of "c\<lparr>ctl_selected := i\<rparr>"] Choose Some
      by simp
  qed
next
  case (Toggle k)
  show ?thesis
  proof (cases "control_at (pg_form st) k")
    case None
    with Toggle show ?thesis by simp
  next
    case (Some c)
    from control_at_skeleton [OF skeleton_uncheck_group [symmetric] Some, of "ctl_name c"]
    obtain c1 where c1: "control_at (uncheck_group (ctl_name c) (pg_form st)) k = Some c1"
      "ctl_name c1 = ctl_name c" "ctl_id c1 = ctl_id c" "ctl_tag c1 = ctl_tag c"
      by blast
    have "map skeleton (form_fields (set_control k (c\<lparr>ctl_checked := True\<rparr>)
            (uncheck_group (ctl_name c) (pg_form st)))) =
          map skeleton (form_fields (pg_form st))"
      using skeleton_set_control [OF c1(1), of "c\<lparr>ctl_checked := True\<rparr>"] c1(2-4)
      by (simp add: skeleton_uncheck_group)
    then show ?thesis
      using skeleton_set_control [OF Some, of "c\<lparr>ctl_checked := \<not> ctl_checked c\<rparr>"] Toggle Some
      by simp
  qed
next
  case (Pick_file k f)
  show ?thesis
  proof (cases "control_at (pg_form st) k")
    case None
    with Pick_file show ?thesis by simp
  next
    case (Some c)
    show ?thesis
      using skeleton_set_control [OF Some, of "c\<lparr>ctl_file := f\<rparr>"] Pick_file Some
      by simp
  qed
next
  case Submit
  then show ?thesis by (simp add: skeleton_submit)
qed

lemma skeleton_run:
  "map skeleton (form_fields (pg_form (run es st))) = map skeleton (form_fields (pg_form st))"
  unfolding run_def by (induction es arbitrary: st) (simp_all add: skeleton_step)

lemma names_run:
  "map ctl_name (form_controls (pg_form (run es st))) = map ctl_name (form_controls (pg_form st))"
  unfolding form_controls_def by (rule names_of_skeleton) (rule skeleton_run)

lemma submit_wired_run: "pg_submit_listener (run es st) = pg_submit_listener st"
  by (rule interface_run)


section \<open>The controls of the rendered form and the keys of the snapshot\<close>

lemma fields_renderSection:
  "section_fields (se_children (renderSection config userRole index section)) =
   map (\<lambda>f. createField f userRole) (fields_of section)"
  by (simp add: renderSection_def section_fields_append section_fields_FieldEl fields_of_def
      split: option.splits)

lemma fields_renderSections:
  "form_fields (map SectionEl (renderSections config userRole)) =
   map (\<lambda>f. createField f userRole) (concat (map fields_of (sorted_sections config)))"
proof -
  have "concat (map (\<lambda>x. map (\<lambda>f. createField f userRole) (fields_of (snd x))) (enumerate n xs)) =
        map (\<lambda>f. createField f userRole) (concat (map fields_of xs))" for n xs
    by (induction xs arbitrary: n) simp_all
  moreover have "form_fields (map (\<lambda>x. SectionEl (g x)) xs) =
        concat (map (\<lambda>x. section_fields (se_children (g x))) xs)" for g and xs :: "(nat \<times> sectionSpec) list"
    by (simp add: form_fields_def form_sections_SectionEl o_def)
  ultimately show ?thesis
    by (simp add: renderSections_def fields_renderSection split_def o_def)
qed

lemma fields_assembled:
  "form_fields (assembled config params st) =
   form_fields (pg_form st) @
   map (\<lambda>f. createField f (or_else (q_role params) ''user''))
     (concat (map fields_of (sorted_sections config)))"
  by (simp only: assembled_def form_fields_append fields_renderSections form_fields_simps append_Nil2)

lemma interface_renderForm [simp]:
  "pg_interface (renderForm config params st) = pg_interface st"
  "pg_file_attribute (renderForm config params st) = pg_file_attribute st"
  "pg_submit_listener (renderForm config params st)"
  by (simp_all add: renderForm_def applyVisibilityRules_def Let_def)

lemma skeleton_renderForm:
  "map skeleton (form_fields (pg_form (renderForm config params st))) =
   map skeleton (form_fields (assembled config params st))"
  by (simp add: form_renderForm skeleton_updateVisibility)

lemma update_wrapper_inert: "fe_visibleIfField w = None \<Longrightarrow> update_wrapper get w = w"
  by (simp add: update_wrapper_def)

lemma inert_kept:
  assumes "fe_visibleIfField w = None" "w \<in> set (form_fields formEl)"
  shows "w \<in> set (form_fields (updateVisibility interface formEl))"
proof -
  have "a \<in> set xs \<Longrightarrow> (\<And>i. g i a = a) \<Longrightarrow> a \<in> set (map (\<lambda>(i, w). g i w) (enumerate n xs))"
    for a :: field_el and xs g n
    by (induction xs arbitrary: n) auto
  from this [OF assms(2)] show ?thesis
    by (simp add: updateVisibility_def Let_def form_fields_imap update_wrapper_inert [OF assms(1)])
qed

lemma inert_rendered:
  assumes "fe_visibleIfField w = None" "w \<in> set (form_fields (assembled config params st))"
  shows "w \<in> set (form_fields (pg_form (renderForm config params st)))"
  using assms by (simp add: form_renderForm inert_kept)


lemma set_sorted_fields: "set (concat (map fields_of (sorted_sections config))) = set (config_fields config)"
  by (simp add: sorted_sections_sort_key config_fields_def)

lemma control_createField:
  "fe_control (createField f r) = None \<longleftrightarrow> permission_denied f r"
  "fe_control (createField f r) = Some c \<Longrightarrow> ctl_name c = f_id f \<and> \<not> permission_denied f r"
  by (cases "permission_denied f r"; auto simp: createField_denied createField_allowed)+

lemma names_created:
  "ctl_name ` set (List.map_filter fe_control (map (\<lambda>f. createField f r) fs)) =
   f_id ` {f \<in> set fs. \<not> permission_denied f r}"
proof (intro set_eqI iffI)
  fix n assume "n \<in> ctl_name ` set (List.map_filter fe_control (map (\<lambda>f. createField f r) fs))"
  then obtain c f where "f \<in> set fs" "fe_control (createField f r) = Some c" "n = ctl_name c"
    unfolding set_map_filter by auto
  then show "n \<in> f_id ` {f \<in> set fs. \<not> permission_denied f r}"
    using control_createField(2) by blast
next
  fix n assume "n \<in> f_id ` {f \<in> set fs. \<not> permission_denied f r}"
  then obtain f where f: "f \<in> set fs" "\<not> permission_denied f r" "n = f_id f" by auto
  then obtain c where c: "fe_control (createField f r) = Some c"
    using control_createField(1) [of f r] by auto
  from control_createField(2) [OF c] f c
  show "n \<in> ctl_name ` set (List.map_filter fe_control (map (\<lambda>f. createField f r) fs))"
    unfolding set_map_filter by force
qed

lemma mset_sorted_fields:
  "mset (concat (map fields_of (sorted_sections config))) = mset (config_fields config)"
proof -
  have "sum_list (map h (sort_key k xs)) = sum_list (map h xs)"
    for h :: "sectionSpec \<Rightarrow> fieldSpec multiset" and k :: "sectionSpec \<Rightarrow> int" and xs
  proof -
    have "sum_mset (mset (map h (sort_key k xs))) = sum_mset (mset (map h xs))" by simp
    then show ?thesis by (simp only: sum_mset_sum_list)
  qed
  then show ?thesis
    by (simp add: config_fields_def sorted_sections_sort_key mset_concat)
qed

lemma created_control:
  "fe_control (createField f r) = Some c \<Longrightarrow> ctl_name c = f_id f \<and> ctl_id c = f_id f"
  by (cases "permission_denied f r"; auto simp: createField_denied createField_allowed)

lemma fieldId_created: "fe_fieldId (createField f r) = f_id f"
  by (simp add: createField_def Let_def)

lemma names_renderForm:
  assumes "form_controls (pg_form st) = []"
  shows "set (map ctl_name (form_controls (pg_form (renderForm config params st)))) =
         f_id ` {f \<in> set (config_fields config). \<not> permission_denied f (or_else (q_role params) ''user'')}"
proof -
  define r where "r = or_else (q_role params) ''user''"
  define fs where "fs = concat (map fields_of (sorted_sections config))"
  have "map ctl_name (form_controls (pg_form (renderForm config params st))) =
        map ctl_name (List.map_filter fe_control (form_fields (assembled config params st)))"
    unfolding form_controls_def by (rule names_of_skeleton) (rule skeleton_renderForm)
  also have "List.map_filter fe_control (form_fields (assembled config params st)) =
        List.map_filter fe_control (map (\<lambda>f. createField f r) fs)"
    using assms by (simp add: fields_assembled map_filter_append form_controls_def r_def fs_def)
  finally have "set (map ctl_name (form_controls (pg_form (renderForm config params st)))) =
      ctl_name ` set (List.map_filter fe_control (map (\<lambda>f. createField f r) fs))" by simp
  also have "\<dots> = f_id ` {f \<in> set fs. \<not> permission_denied f r}"
    by (rule names_created)
  also have "set fs = set (config_fields config)"
    unfolding fs_def by (rule set_sorted_fields)
  finally show ?thesis
    unfolding r_def .
qed

lemma keys_data_set:
  "fst ` set (dt_own (data_set fa k v d)) \<subseteq> insert k (fst ` set (dt_own d))"
  using dom_update [of k v "dt_own d"] by (auto simp: data_set_def split: entry_value.splits)

lemma keys_fold_data:
  "fst ` set (dt_own (fold (\<lambda>(key, val) data. data_set fa key val data) es d))
     \<subseteq> fst ` set es \<union> fst ` set (dt_own d)"
proof (induction es arbitrary: d)
  case Nil
  then show ?case by simp
next
  case (Cons e es)
  obtain k v where e: "e = (k, v)" by (cases e)
  have "fst ` set (dt_own (fold (\<lambda>(key, val) data. data_set fa key val data) es (data_set fa k v d)))
        \<subseteq> fst ` set es \<union> fst ` set (dt_own (data_set fa k v d))"
    by (rule Cons)
  also have "\<dots> \<subseteq> fst ` set es \<union> insert k (fst ` set (dt_own d))"
    using keys_data_set [of fa k v d] by blast
  finally show ?case by (simp add: e)
qed

lemma keys_collect_data: "fst ` set (dt_own (collect_data fa entries)) \<subseteq> fst ` set entries"
  using keys_fold_data [of fa entries "\<lparr>dt_own = [], dt_file_proto = False\<rparr>"]
  by (simp add: collect_data_def)

lemma keys_form_entry: "fst ` set (form_entry c) \<subseteq> {ctl_name c}"
  by (simp add: form_entry_def split: tag.splits)

lemma keys_snapshot: "fst ` set (snapshot fa formEl) \<subseteq> set (map ctl_name (form_controls formEl))"
proof -
  have "fst ` set (formData_entries formEl) \<subseteq> ctl_name ` set (form_controls formEl)"
    unfolding formData_entries_def using keys_form_entry by fastforce
  with keys_collect_data [of fa "formData_entries formEl"] show ?thesis
    by (simp add: snapshot_def)
qed

section \<open>Dependents without a controller\<close>

lemma missing_controller_unchanged:
  assumes "fe_visibleIfField w = Some c" "controller_of formEl c = None"
    and "c \<notin> set Object_prototype_members"
  shows "update_wrapper (plain_get (form_fields formEl)) w = w"
  using assms by (simp add: update_wrapper_def plain_get_controller)

lemma inherited_member_hides:
  assumes "fe_visibleIfField w = Some c" "fe_visibleIfEquals w = Some t" "c \<noteq> []"
    and "controller_of formEl c = None" "c \<in> set Object_prototype_members"
  shows "fe_display (update_wrapper (plain_get (form_fields formEl)) w) = ''none''"
  using assms by (simp add: update_wrapper_def plain_get_controller)

lemma placeholder_unchanged: "is_placeholder w \<Longrightarrow> update_wrapper get w = w"
  by (simp add: update_wrapper_def is_placeholder_def)


section \<open>Reading back what JSON.stringify wrote\<close>

lemma skip_ws_Cons: "skip_ws (c # s) = (if is_ws c then skip_ws s else c # s)"
  by (simp add: skip_ws_def)

lemma skip_ws_Nil [simp]: "skip_ws [] = []"
  by (simp add: skip_ws_def)

lemma skip_ws_append: "list_all is_ws ws \<Longrightarrow> skip_ws (ws @ s) = skip_ws s"
  by (induction ws) (simp_all add: skip_ws_Cons)

lemma hex_value_digit: "d < 16 \<Longrightarrow> hex_value (hex_digit d) = Some d"
  by (simp add: hex_value_def hex_digit_def numeral_eq_Suc less_Suc_eq nth_Cons') auto

lemma hex4_control:
  assumes "n < 32"
  shows "hex4 CHR ''0'' CHR ''0'' (hex_digit (n div 16)) (hex_digit (n mod 16)) = Some n"
proof -
  have z: "hex_value CHR ''0'' = Some 0" by (simp add: hex_value_def)
  have "n div 16 < 16" using assms by simp
  then show ?thesis
    by (simp add: hex4_def z hex_value_digit)
qed

lemma string_body_escape: "string_body (json_escape c @ rest) = prepend c (string_body rest)"
proof -
  consider (quote) "c = CHR 0x22" | (backslash) "c = CHR 0x5C" | (b) "c = CHR 0x08"
    | (t) "c = CHR 0x09" | (n) "c = CHR 0x0A" | (f) "c = CHR 0x0C" | (r) "c = CHR 0x0D"
    | (control) "c \<notin> {CHR 0x22, CHR 0x5C, CHR 0x08, CHR 0x09, CHR 0x0A, CHR 0x0C, CHR 0x0D}"
        "(of_char c :: nat) < 32"
    | (plain) "c \<notin> {CHR 0x22, CHR 0x5C, CHR 0x08, CHR 0x09, CHR 0x0A, CHR 0x0C, CHR 0x0D}"
        "\<not> (of_char c :: nat) < 32"
    by blast
  then show ?thesis
  proof cases
    case quote
    then show ?thesis by (simp add: json_escape_def unescape_def)
  next
    case backslash
    then show ?thesis by (simp add: json_escape_def unescape_def)
  next
    case b
    then show ?thesis by (simp add: json_escape_def unescape_def)
  next
    case t
    then show ?thesis by (simp add: json_escape_def unescape_def)
  next
    case n
    then show ?thesis by (simp add: json_escape_def unescape_def)
  next
    case f
    then show ?thesis by (simp add: json_escape_def unescape_def)
  next
    case r
    then show ?thesis by (simp add: json_escape_def unescape_def)
  next
    case control
    then show ?thesis
      using hex4_control [of "of_char c"]
      by (simp add: json_escape_def)
  next
    case plain
    then show ?thesis by (simp add: json_escape_def)
  qed
qed

lemma string_body_quote: "string_body (CHR 0x22 # rest) = Some ([], rest)"
  by simp

lemma string_body_escaped:
  "string_body (concat (map json_escape s) @ CHR 0x22 # rest) = Some (s, rest)"
  by (induction s)
     (simp_all add: string_body_escape string_body_quote prepend_def del: string_body.simps(2))

lemma json_string_quote: "json_string (JSON_quote s @ rest) = Some (s, rest)"
  by (simp add: json_string_def JSON_quote_def string_body_escaped del: string_body.simps)

lemma not_ws [simp]:
  "\<not> is_ws CHR 0x22" "\<not> is_ws CHR '':''" "\<not> is_ws CHR '',''" "\<not> is_ws CHR ''}''" "\<not> is_ws CHR ''{''"
  "is_ws CHR '' ''" "is_ws CHR 0x0A"
  by (simp_all add: is_ws_def)

lemma json_member_value_text:
  "json_member_value (json_value v @ rest) = Some (json_of v, rest)"
proof (cases v)
  case (Str s)
  have "JSON_quote s @ rest = CHR 0x22 # (concat (map json_escape s) @ CHR 0x22 # rest)"
    by (simp add: JSON_quote_def)
  then show ?thesis
    using json_string_quote [of s rest]
    by (simp add: json_member_value_def json_value_def json_of_def Str)
next
  case (File f)
  then show ?thesis
    by (simp add: json_member_value_def json_value_def json_of_def skip_ws_Cons)
qed

lemma json_value_head: "\<exists>c r. json_value v = c # r \<and> \<not> is_ws c"
  by (cases v) (simp_all add: json_value_def JSON_quote_def)

lemma json_pair_member:
  assumes "list_all is_ws ws"
  shows "json_pair (ws @ json_member p @ rest) = Some ((fst p, json_of (snd p)), skip_ws rest)"
proof -
  from json_value_head [of "snd p"] obtain c r where v: "json_value (snd p) = c # r" "\<not> is_ws c"
    by blast
  have 1: "skip_ws (ws @ json_member p @ rest) =
           JSON_quote (fst p) @ ('': '' @ json_value (snd p) @ rest)"
    using assms by (simp add: skip_ws_append json_member_def skip_ws_Cons JSON_quote_def)
  have 2: "skip_ws ('': '' @ json_value (snd p) @ rest) = CHR '':'' # ('' '' @ json_value (snd p) @ rest)"
    by (simp add: skip_ws_Cons)
  have 3: "skip_ws ('' '' @ json_value (snd p) @ rest) = json_value (snd p) @ rest"
    using v by (simp add: skip_ws_Cons)
  show ?thesis
    unfolding json_pair_def 1 json_string_quote
    by (simp only: 2 3 json_member_value_text option.case prod.case list.case) simp
qed

lemma json_members_length: "length kvs \<le> length (json_members kvs)"
  by (induction kvs rule: json_members.induct) (simp_all add: json_member_def)

lemma json_members_head:
  "kvs \<noteq> [] \<Longrightarrow> \<exists>r. json_members kvs = '' '' @ '' '' @ CHR 0x22 # r"
  by (induction kvs rule: json_members.induct) (simp_all add: json_member_def JSON_quote_def)

lemma object_members_text:
  assumes "kvs \<noteq> []" "length kvs \<le> fuel" "list_all is_ws ws"
  shows "json_object_members fuel obj (ws @ json_members kvs @ CHR 0x0A # CHR ''}'' # rest) =
         Some (fold (\<lambda>(k, v) obj. AList.update k (json_of v) obj) kvs obj, rest)"
  using assms
proof (induction kvs arbitrary: fuel obj ws rule: json_members.induct)
  case 1
  then show ?case by simp
next
  case (2 p)
  then obtain fuel' where f: "fuel = Suc fuel'" by (cases fuel) auto
  obtain k v where p: "p = (k, v)" by (cases p)
  have "json_pair (ws @ json_member p @ (CHR 0x0A # CHR ''}'' # rest)) =
        Some ((fst p, json_of (snd p)), CHR ''}'' # rest)"
    using json_pair_member [OF 2(3), of p "CHR 0x0A # CHR ''}'' # rest"]
    by (simp add: skip_ws_Cons)
  then show ?case
    by (simp add: f p)
next
  case (3 p q ps)
  then obtain fuel' where f: "fuel = Suc fuel'" by (cases fuel) auto
  obtain k v where p: "p = (k, v)" by (cases p)
  let ?tail = "json_members (q # ps) @ CHR 0x0A # CHR ''}'' # rest"
  have "json_pair (ws @ json_member p @ (CHR '','' # CHR 0x0A # ?tail)) =
        Some ((fst p, json_of (snd p)), CHR '','' # CHR 0x0A # ?tail)"
    using json_pair_member [OF 3(4), of p "CHR '','' # CHR 0x0A # ?tail"]
    by (simp add: skip_ws_Cons)
  moreover have "json_object_members fuel' (AList.update k (json_of v) obj) ([CHR 0x0A] @ ?tail) =
        Some (fold (\<lambda>(k, v) obj. AList.update k (json_of v) obj) (q # ps)
                (AList.update k (json_of v) obj), rest)"
    using 3(3) f by (intro 3(1)) simp_all
  ultimately show ?case
    by (simp add: f p)
qed

lemma parse_stringify:
  "JSON_parse (JSON_stringify d) =
   Some (fold (\<lambda>(k, v) obj. AList.update k (json_of v) obj) (own_keys_order d) [])"
proof (cases "d = []")
  case True
  then show ?thesis
    by (simp add: JSON_stringify_def JSON_parse_def skip_ws_Cons own_keys_order_def)
next
  case False
  define kvs where "kvs = own_keys_order d"
  have "mset kvs = mset d"
    by (simp add: kvs_def own_keys_order_def)
  then have "length kvs = length d"
    by (rule mset_eq_length)
  with False have ne: "kvs \<noteq> []" by auto
  define doc where "doc = CHR ''{'' # CHR 0x0A # json_members kvs @ [CHR 0x0A, CHR ''}'']"
  have t: "JSON_stringify d = doc"
    using False by (simp add: JSON_stringify_def doc_def kvs_def)
  from json_members_head [OF ne] obtain r where r: "json_members kvs = '' '' @ '' '' @ CHR 0x22 # r"
    by blast
  have h: "skip_ws (CHR 0x0A # json_members kvs @ [CHR 0x0A, CHR ''}'']) =
           CHR 0x22 # r @ [CHR 0x0A, CHR ''}'']"
    by (simp add: r skip_ws_Cons)
  have "length kvs \<le> length doc"
    using json_members_length [of kvs] by (simp add: doc_def)
  then have m: "json_object_members (length doc) [] ([CHR 0x0A] @ json_members kvs @ CHR 0x0A # CHR ''}'' # []) =
        Some (fold (\<lambda>(k, v) obj. AList.update k (json_of v) obj) kvs [], [])"
    using ne by (intro object_members_text) simp_all
  have "JSON_parse doc = Some (fold (\<lambda>(k, v) obj. AList.update k (json_of v) obj) kvs [])"
    unfolding JSON_parse_def
    using m h by (simp add: doc_def skip_ws_Cons)
  then show ?thesis by (simp add: t kvs_def)
qed

lemma map_of_fold_update:
  "map_of (fold (\<lambda>(k, v) obj. AList.update k (g v) obj) kvs acc) =
   map_of acc ++ map_of (rev (map (\<lambda>(k, v). (k, g v)) kvs))"
proof (induction kvs arbitrary: acc)
  case Nil
  then show ?case by simp
next
  case (Cons p kvs)
  obtain k v where p: "p = (k, v)" by (cases p)
  show ?case
    by (simp add: Cons p update_conv' map_add_def fun_eq_iff split: option.splits)
qed


lemma mset_own_keys_order: "mset (own_keys_order d) = mset d"
  by (simp add: own_keys_order_def)

lemma map_of_own_keys_order:
  assumes "distinct (map fst d)"
  shows "map_of (rev (own_keys_order d)) = map_of d"
proof -
  have m: "mset (map fst (rev (own_keys_order d))) = mset (map fst d)"
    by (simp add: mset_own_keys_order)
  have "distinct (map fst (rev (own_keys_order d)))"
    using assms mset_eq_imp_distinct_iff [OF m] by simp
  moreover have "set (rev (own_keys_order d)) = set d"
    using mset_eq_setD [OF mset_own_keys_order [of d]] by simp
  ultimately show ?thesis
    using assms by (simp add: map_of_inject_set)
qed

section \<open>The object collected from the entries\<close>

lemma distinct_data_set:
  "distinct (map fst (dt_own d)) \<Longrightarrow> distinct (map fst (dt_own (data_set fa k v d)))"
  by (simp add: data_set_def distinct_update split: entry_value.splits)

lemma distinct_fold_data_set:
  "distinct (map fst (dt_own d)) \<Longrightarrow>
   distinct (map fst (dt_own (fold (\<lambda>(k, v) data. data_set fa k v data) es d)))"
proof (induction es arbitrary: d)
  case Nil
  then show ?case by simp
next
  case (Cons p es)
  obtain k v where p: "p = (k, v)" by (cases p)
  have "distinct (map fst (dt_own (data_set fa k v d)))"
    using Cons.prems by (rule distinct_data_set)
  then have "distinct (map fst (dt_own (fold (\<lambda>(k, v) data. data_set fa k v data) es (data_set fa k v d))))"
    by (rule Cons.IH)
  then show ?case by (simp add: p)
qed

lemma distinct_collect_data: "distinct (map fst (dt_own (collect_data fa es)))"
  by (simp add: collect_data_def distinct_fold_data_set)

text \<open>
  When no file comes under the key \<^verbatim>\<open>__proto__\<close> the prototype of \<^verbatim>\<open>data\<close> stays as it is,
  and the object holds the last entry of every other key.
\<close>

lemma data_set_plain:
  assumes "\<not> dt_file_proto d" "k = ''__proto__'' \<longrightarrow> (\<exists>s. v = Str s)"
  shows "\<not> dt_file_proto (data_set fa k v d)"
    and "map_of (dt_own (data_set fa k v d)) =
         (if k = ''__proto__'' then map_of (dt_own d) else (map_of (dt_own d))(k \<mapsto> v))"
  using assms by (auto simp: data_set_def update_conv' split: entry_value.splits)

lemma map_of_fold_data_set:
  assumes "\<not> dt_file_proto d" "\<forall>(k, v) \<in> set es. k = ''__proto__'' \<longrightarrow> (\<exists>s. v = Str s)"
  shows "map_of (dt_own (fold (\<lambda>(k, v) data. data_set fa k v data) es d)) =
         map_of (dt_own d) ++ map_of (rev (filter (\<lambda>p. fst p \<noteq> ''__proto__'') es))"
  using assms
proof (induction es arbitrary: d)
  case Nil
  then show ?case by simp
next
  case (Cons p es)
  obtain k v where p: "p = (k, v)" by (cases p)
  from Cons.prems p have kv: "k = ''__proto__'' \<longrightarrow> (\<exists>s. v = Str s)"
    and r: "\<forall>(k, v) \<in> set es. k = ''__proto__'' \<longrightarrow> (\<exists>s. v = Str s)" by auto
  note d = data_set_plain [OF Cons.prems(1) kv, of fa]
  have "map_of (dt_own (fold (\<lambda>(k, v) data. data_set fa k v data) es (data_set fa k v d))) =
        map_of (dt_own (data_set fa k v d)) ++ map_of (rev (filter (\<lambda>p. fst p \<noteq> ''__proto__'') es))"
    using d(1) r by (rule Cons.IH)
  then show ?case
    by (simp add: p d(2) map_add_def fun_eq_iff split: option.splits)
qed

lemma entry_collected:
  "filter (\<lambda>p. fst p \<noteq> ''__proto__'') (form_entry c) =
   (if collected c then [(ctl_name c, submitted_value c)] else [])"
  by (cases "ctl_tag c")
     (auto simp: form_entry_def collected_def successful_def submitted_value_def value_of_def
        is_file_input_def is_charset_input_def checked_kinds_def button_kinds_def value_kinds_def)

lemma entries_collected:
  "filter (\<lambda>p. fst p \<noteq> ''__proto__'') (formData_entries formEl) =
   map (\<lambda>c. (ctl_name c, submitted_value c)) (filter collected (form_controls formEl))"
proof -
  have "filter (\<lambda>p. fst p \<noteq> ''__proto__'') (concat (map form_entry cs)) =
        map (\<lambda>c. (ctl_name c, submitted_value c)) (filter collected cs)" for cs
    by (induction cs) (simp_all add: entry_collected)
  then show ?thesis by (simp add: formData_entries_def)
qed

lemma file_entry:
  assumes "(k, File f) \<in> set (form_entry c)"
  shows "is_file_input c \<and> ctl_name c = k"
  using assms
  by (cases "ctl_tag c") (auto simp: form_entry_def is_file_input_def split: if_splits)

lemma entries_without_file_prototype:
  assumes "\<not> file_prototype (form_controls formEl)"
  shows "\<forall>(k, v) \<in> set (formData_entries formEl). k = ''__proto__'' \<longrightarrow> (\<exists>s. v = Str s)"
proof (clarify)
  fix k v
  assume m: "(''__proto__'', v) \<in> set (formData_entries formEl)"
  show "\<exists>s. v = Str s"
  proof (cases v)
    case (Str s)
    then show ?thesis by simp
  next
    case (File f)
    with m obtain c where "c \<in> set (form_controls formEl)" "(''__proto__'', File f) \<in> set (form_entry c)"
      by (auto simp: formData_entries_def)
    with file_entry [of "''__proto__''" f c] assms show ?thesis
      by (auto simp: file_prototype_def list_ex_iff)
  qed
qed

lemma map_of_map_snd: "map_of (map (\<lambda>(k, v). (k, g v)) xs) k = map_option g (map_of xs k)"
  by (induction xs) auto

lemma map_of_map_key:
  "map_of (map (\<lambda>c. (n c, g (v c))) cs) k = map_option g (map_of (map (\<lambda>c. (n c, v c)) cs) k)"
  by (induction cs) auto

lemma map_of_snapshot:
  assumes "\<not> file_prototype (form_controls formEl)"
  shows "map_of (map (\<lambda>(k, v). (k, json_of v)) (snapshot fa formEl)) =
         submitted_of (filter collected (form_controls formEl))"
proof -
  have "map_of (snapshot fa formEl) =
        map_of (rev (map (\<lambda>c. (ctl_name c, submitted_value c)) (filter collected (form_controls formEl))))"
    using map_of_fold_data_set [OF _ entries_without_file_prototype [OF assms],
        of "\<lparr>dt_own = [], dt_file_proto = False\<rparr>" fa]
    by (simp add: snapshot_def collect_data_def entries_collected)
  then show ?thesis
    by (simp add: submitted_of_def fun_eq_iff map_of_map_snd rev_map
        map_of_map_key [of ctl_name json_of submitted_value])
qed

lemma submitted_plainly:
  assumes "list_all plainly_collected cs"
  shows "submitted_of (filter collected cs) = map_option J_string \<circ> values_of cs"
    and "\<not> file_prototype cs"
proof -
  from assms have f: "filter collected cs = cs"
    by (simp add: list_all_iff plainly_collected_def)
  from assms have "\<forall>c \<in> set (rev cs). json_of (submitted_value c) = J_string (value_of c)"
    by (simp add: list_all_iff plainly_collected_def submitted_value_def json_of_def)
  then have "map (\<lambda>c. (ctl_name c, json_of (submitted_value c))) (rev cs) =
        map (\<lambda>c. (ctl_name c, J_string (value_of c))) (rev cs)"
    by (intro map_cong) simp_all
  then show "submitted_of (filter collected cs) = map_option J_string \<circ> values_of cs"
    by (simp only: f submitted_of_def values_of_def rev_map fun_eq_iff o_def
        map_of_map_key [of ctl_name J_string value_of]) simp
  from assms show "\<not> file_prototype cs"
    by (auto simp: file_prototype_def list_ex_iff list_all_iff plainly_collected_def)
qed

lemma values_of_last: "values_of (cs @ [c]) (ctl_name c) = Some (value_of c)"
  by (simp add: values_of_def)


section \<open>The visibility rule is kept by every event\<close>

lemma find_map_view:
  "map_option value_of (List.find (\<lambda>c. ctl_name c = n) cs) =
   map_option snd (List.find (\<lambda>p. fst p = n) (map control_view cs))"
  by (induction cs) (simp_all add: control_view_def)

lemma controller_value_view:
  "map_option value_of (controller_of formEl n) =
   map_option snd (List.find (\<lambda>p. fst p = n) (rev (map control_view (form_controls formEl))))"
  by (simp add: controller_of_def find_map_view rev_map)

lemma settled_alt:
  "visibility_settled formEl =
     (\<forall>v \<in> set (map wrapper_view (form_fields formEl)). \<forall>c t x.
        fst v = Some c \<and> fst (snd v) = Some t \<and> c \<noteq> [] \<and>
        map_option value_of (controller_of formEl c) = Some x \<longrightarrow>
        snd (snd v) = (if x = t then [] else ''none''))"
proof
  assume s: "visibility_settled formEl"
  show "\<forall>v \<in> set (map wrapper_view (form_fields formEl)). \<forall>c t x.
        fst v = Some c \<and> fst (snd v) = Some t \<and> c \<noteq> [] \<and>
        map_option value_of (controller_of formEl c) = Some x \<longrightarrow>
        snd (snd v) = (if x = t then [] else ''none'')"
  proof (intro ballI allI impI)
    fix v c t x
    assume v: "v \<in> set (map wrapper_view (form_fields formEl))"
      and h: "fst v = Some c \<and> fst (snd v) = Some t \<and> c \<noteq> [] \<and>
              map_option value_of (controller_of formEl c) = Some x"
    from v obtain w where w: "w \<in> set (form_fields formEl)" "v = wrapper_view w" by auto
    from h obtain ctl where ctl: "controller_of formEl c = Some ctl" "value_of ctl = x" by auto
    from h w have "fe_visibleIfField w = Some c \<and> fe_visibleIfEquals w = Some t \<and> c \<noteq> [] \<and>
        controller_of formEl c = Some ctl"
      by (simp add: wrapper_view_def ctl)
    with s w(1) have "fe_display w = (if value_of ctl = t then [] else ''none'')"
      unfolding visibility_settled_def by blast
    then show "snd (snd v) = (if x = t then [] else ''none'')"
      by (simp add: w(2) wrapper_view_def ctl)
  qed
next
  assume a: "\<forall>v \<in> set (map wrapper_view (form_fields formEl)). \<forall>c t x.
        fst v = Some c \<and> fst (snd v) = Some t \<and> c \<noteq> [] \<and>
        map_option value_of (controller_of formEl c) = Some x \<longrightarrow>
        snd (snd v) = (if x = t then [] else ''none'')"
  show "visibility_settled formEl"
    unfolding visibility_settled_def
  proof (intro ballI allI impI)
    fix w c t ctl
    assume w: "w \<in> set (form_fields formEl)"
      and h: "fe_visibleIfField w = Some c \<and> fe_visibleIfEquals w = Some t \<and> c \<noteq> [] \<and>
              controller_of formEl c = Some ctl"
    from w have "wrapper_view w \<in> set (map wrapper_view (form_fields formEl))" by simp
    moreover from h have "fst (wrapper_view w) = Some c \<and> fst (snd (wrapper_view w)) = Some t \<and>
        c \<noteq> [] \<and> map_option value_of (controller_of formEl c) = Some (value_of ctl)"
      by (simp add: wrapper_view_def)
    ultimately have "snd (snd (wrapper_view w)) = (if value_of ctl = t then [] else ''none'')"
      using a by blast
    then show "fe_display w = (if value_of ctl = t then [] else ''none'') \<and>
               visible w = (value_of ctl = t)"
      by (simp add: wrapper_view_def visible_def)
  qed
qed

lemma settled_cong:
  assumes "map wrapper_view (form_fields f1) = map wrapper_view (form_fields f2)"
    and "map control_view (form_controls f1) = map control_view (form_controls f2)"
  shows "visibility_settled f1 = visibility_settled f2"
  unfolding settled_alt controller_value_view assms ..

lemma views_of_field_view:
  "map wrapper_view ws = map fst (map field_view ws)"
  "map control_view (List.map_filter fe_control ws) = List.map_filter snd (map field_view ws)"
proof -
  show "map wrapper_view ws = map fst (map field_view ws)"
    by (simp add: field_view_def)
  show "map control_view (List.map_filter fe_control ws) = List.map_filter snd (map field_view ws)"
    by (induction ws) (simp_all add: field_view_def split: option.splits)
qed

lemma settled_field_view:
  assumes "map field_view (form_fields f1) = map field_view (form_fields f2)"
  shows "visibility_settled f1 = visibility_settled f2"
  by (rule settled_cong) (simp_all add: views_of_field_view form_controls_def assms)

lemma plain_form_skeleton:
  assumes "map skeleton (form_fields f) = map skeleton (form_fields f')"
  shows "plain_form f = plain_form f'"
  unfolding plain_form_def
  by (simp only: no_control_named_skeleton [OF assms] no_control_id_skeleton [OF assms])

lemma value_of_checked [simp]: "value_of (c\<lparr>ctl_checked := b\<rparr>) = value_of c"
  by (simp add: value_of_def input_kind_def split: tag.splits)

lemma field_view_uncheck [simp]: "field_view (uncheck name w) = field_view w"
  by (simp add: uncheck_def field_view_def wrapper_view_def control_view_def split: option.splits)

lemma field_view_uncheck_group:
  "map field_view (form_fields (uncheck_group name formEl)) = map field_view (form_fields formEl)"
  by (simp add: uncheck_group_def form_fields_map)

lemma controller_unlistened:
  assumes "control_at formEl k = Some c" "ctl_name c' = ctl_name c"
    and "no_control_named ''__proto__'' (form_fields (set_control k c' formEl))"
    and "\<not> listens interface (set_control k c' formEl) k"
  shows "controller_of (set_control k c' formEl) n = controller_of formEl n"
proof -
  let ?A = "List.map_filter fe_control (take k (form_fields formEl))"
  let ?B = "List.map_filter fe_control (drop (Suc k) (form_fields formEl))"
  let ?fs = "form_fields (set_control k c' formEl)"
  note at = control_at_set_control [OF assms(1), of c']
  from control_at_Some [OF at(1)] have k: "k < length ?fs" "fe_control (?fs ! k) = Some c'"
    by simp_all
  from assms(4) have "last_named 0 ?fs (ctl_name c') \<noteq> Some (0 + k)"
    by (simp add: listens_plain [OF assms(3)] at(1))
  from last_named_later [OF k this] have inB: "ctl_name c' \<in> set (map ctl_name ?B)"
    by (simp add: at(2))
  have "List.find (\<lambda>x. ctl_name x = n) (rev ?B) \<noteq> None" if "ctl_name c' = n"
    using inB that by (auto simp: find_None_iff)
  then show ?thesis
    by (auto simp: controller_of_def controls_set_control(1) [OF assms(1)]
        controls_set_control(2) [OF assms(1), of ] find_append_case assms(2) split: option.splits)
qed

lemma settled_edit:
  assumes "control_at (pg_form st) k = Some c"
    and "ctl_name c' = ctl_name c" "ctl_id c' = ctl_id c" "ctl_tag c' = ctl_tag c"
    and "visibility_settled (pg_form st)" and "pg_change_listeners st"
    and "no_control_named ''__proto__'' (form_fields (pg_form st))"
  shows "visibility_settled (pg_form (fire_change k (st\<lparr>pg_form := set_control k c' (pg_form st)\<rparr>)))"
proof -
  have p: "no_control_named ''__proto__'' (form_fields (set_control k c' (pg_form st)))"
    using assms(7) no_control_named_skeleton [OF skeleton_set_control [OF assms(1-4)]] by simp
  show ?thesis
  proof (cases "listens (pg_interface st) (set_control k c' (pg_form st)) k")
    case True
    with assms(6) show ?thesis by (simp add: fire_change_def settled_updateVisibility [OF p])
  next
    case False
    have "visibility_settled (set_control k c' (pg_form st)) = visibility_settled (pg_form st)"
      unfolding settled_alt
      by (simp add: wrapper_view_set_control [OF assms(1)]
          controller_unlistened [OF assms(1,2) p False])
    with assms(5) False show ?thesis by (simp add: fire_change_def)
  qed
qed

lemma settled_step:
  assumes "pg_change_listeners st" "visibility_settled (pg_form st)" "plain_form (pg_form st)"
  shows "visibility_settled (pg_form (step e st))"
proof -
  from assms(3) have np: "no_control_named ''__proto__'' (form_fields (pg_form st))"
    and ni: "no_control_id ''validation-summary'' (pg_form st)"
    by (simp_all add: plain_form_def)
  show ?thesis
  proof (cases e)
    case (Type_text k v bad)
    show ?thesis
    proof (cases "control_at (pg_form st) k")
      case None
      with Type_text assms show ?thesis by simp
    next
      case (Some c)
      show ?thesis
        using settled_edit [OF Some _ _ _ assms(2,1) np,
            of "c\<lparr>ctl_text := v, ctl_dirty := True, ctl_badInput := bad\<rparr>"]
          Type_text Some assms by simp
    qed
  next
    case (Choose k i)
    show ?thesis
    proof (cases "control_at (pg_form st) k")
      case None
      with Choose assms show ?thesis by simp
    next
      case (Some c)
      show ?thesis
        using settled_edit [OF Some _ _ _ assms(2,1) np, of "c\<lparr>ctl_selected := i\<rparr>"]
          Choose Some assms by simp
    qed
  next
    case (Toggle k)
    show ?thesis
    proof (cases "control_at (pg_form st) k")
      case None
      with Toggle assms show ?thesis by simp
    next
      case (Some c)
      let ?u = "uncheck_group (ctl_name c) (pg_form st)"
      from control_at_skeleton [OF skeleton_uncheck_group [symmetric] Some, of "ctl_name c"]
      obtain c1 where c1: "control_at ?u k = Some c1"
        "ctl_name c1 = ctl_name c" "ctl_id c1 = ctl_id c" "ctl_tag c1 = ctl_tag c"
        by blast
      have su: "visibility_settled ?u"
        using assms(2) settled_field_view [OF field_view_uncheck_group] by simp
      have pu: "no_control_named ''__proto__'' (form_fields ?u)"
        using np no_control_named_skeleton [OF skeleton_uncheck_group] by simp
      have "visibility_settled (pg_form (fire_change k
              ((st\<lparr>pg_form := ?u\<rparr>)\<lparr>pg_form := set_control k (c\<lparr>ctl_checked := True\<rparr>)
                  (pg_form (st\<lparr>pg_form := ?u\<rparr>))\<rparr>)))"
        using c1 su pu assms(1)
        by (intro settled_edit [where c = c1]) simp_all
      then have r: "visibility_settled (pg_form (fire_change k
              (st\<lparr>pg_form := set_control k (c\<lparr>ctl_checked := True\<rparr>) ?u\<rparr>)))"
        by simp
      show ?thesis
        using settled_edit [OF Some _ _ _ assms(2,1) np, of "c\<lparr>ctl_checked := \<not> ctl_checked c\<rparr>"]
          r Toggle Some assms by simp
    qed
  next
    case (Pick_file k f)
    show ?thesis
    proof (cases "control_at (pg_form st) k")
      case None
      with Pick_file assms show ?thesis by simp
    next
      case (Some c)
      show ?thesis
        using settled_edit [OF Some _ _ _ assms(2,1) np, of "c\<lparr>ctl_file := f\<rparr>"]
          Pick_file Some assms by simp
    qed
  next
    case Submit
    with assms(2) show ?thesis by (simp add: fields_submit [OF ni] visibility_settled_def
          controller_of_def form_controls_def)
  qed
qed

lemma settled_run:
  assumes "pg_change_listeners st" "visibility_settled (pg_form st)" "plain_form (pg_form st)"
  shows "visibility_settled (pg_form (run es st))"
  using assms unfolding run_def
proof (induction es arbitrary: st)
  case Nil
  then show ?case by simp
next
  case (Cons e es)
  have "plain_form (pg_form (step e st))"
    using Cons.prems(3) plain_form_skeleton [OF skeleton_step] by simp
  with Cons show ?case
    by (simp add: settled_step interface_step)
qed

lemma settled_renderForm:
  assumes "plain_form (assembled config params st)"
  shows "visibility_settled (pg_form (renderForm config params st))"
    and "pg_change_listeners (renderForm config params st)"
    and "plain_form (pg_form (renderForm config params st))"
proof -
  from assms have np: "no_control_named ''__proto__'' (form_fields (assembled config params st))"
    by (simp add: plain_form_def)
  have t: "\<not> fm_thrown (fieldMap_of (pg_interface st) (form_fields (assembled config params st)))"
    by (simp add: fieldMap_of_plain [OF np])
  show "visibility_settled (pg_form (renderForm config params st))"
    by (simp add: form_renderForm t settled_updateVisibility [OF np])
  from t show "pg_change_listeners (renderForm config params st)"
    by (simp add: renderForm_def applyVisibilityRules_def Let_def assembled_def)
  show "plain_form (pg_form (renderForm config params st))"
    using assms plain_form_skeleton [OF skeleton_renderForm] by simp
qed


section \<open>Two ids that collide with the program's own names\<close>

text \<open>
  A control named \<^verbatim>\<open>__proto__\<close> is not stored in \<^verbatim>\<open>fieldMap\<close> but becomes its prototype.
  A field that depends on it is still evaluated at mount, because reading
  \<^verbatim>\<open>fieldMap['__proto__']\<close> yields the prototype; but the control is no value of the map
  and gets no change listener, so after the user has typed the target into it the
  dependent field is still hidden.
\<close>

lemma proto_control_not_wired:
  "map ctl_name (form_controls (pg_form ex_mounted_proto)) = [''__proto__'', ''details''] \<and>
   map (listens ex_interface (pg_form ex_mounted_proto)) [0, 1] = [False, True] \<and>
   map fe_display (form_fields (pg_form ex_mounted_proto)) = [[], ''none''] \<and>
   map value_of (form_controls (pg_form (run [Type_text 0 ''yes'' False] ex_mounted_proto))) =
     [''yes'', []] \<and>
   map fe_display (form_fields (pg_form (run [Type_text 0 ''yes'' False] ex_mounted_proto))) =
     [[], ''none'']"
  by code_simp

text \<open>
  A field with the id \<^verbatim>\<open>validation-summary\<close>: on a failed submit
  \<^verbatim>\<open>getElementById\<close> returns the control of the field, the message is written into it
  and no summary is created.  The field here is a required \<^verbatim>\<open>textarea\<close>: the message
  becomes its value, and the next submit finds the form valid.
\<close>

lemma summary_id_collision:
  "\<not> checkValidity (pg_form ex_mounted_summary_id) \<and>
   length (pg_form (step Submit ex_mounted_summary_id)) = length (pg_form ex_mounted_summary_id) \<and>
   map (\<lambda>c. (ctl_textContent c, value_of c, ctl_classes c))
     (form_controls (pg_form (step Submit ex_mounted_summary_id))) =
     [(validation_message, validation_message, [''show''])] \<and>
   checkValidity (pg_form (step Submit ex_mounted_summary_id)) \<and>
   pg_output_json (run [Submit, Submit] ex_mounted_summary_id) =
     JSON_stringify [(''validation-summary'', Str validation_message)] \<and>
   pg_output_classes (run [Submit, Submit] ex_mounted_summary_id) = []"
  by code_simp

section \<open>The visibility rule\<close>




section \<open>The order of the sections\<close>



section \<open>The control built for an unrecognized type\<close>

text \<open>
  Claim C3, as the code has it.  For a field that is rendered and whose \<^verbatim>\<open>type\<close> is
  none of \<^verbatim>\<open>text\<close>, \<^verbatim>\<open>textarea\<close>, \<^verbatim>\<open>select\<close>, \<^verbatim>\<open>date\<close>, \<^verbatim>\<open>time\<close>, the control is an
  \<^verbatim>\<open>input\<close> element whose type attribute is the type string itself (\<^verbatim>\<open>text\<close> when the
  type is missing or empty).  It is a single-line text input exactly when that string,
  ignoring case, is not another input kind of the platform.
\<close>

theorem C3_type_passthrough:
  assumes "\<not> recognized_type (f_type field)"
    and "\<not> permission_denied field userRole"
  shows "\<exists>c. fe_control (createField field userRole) = Some c \<and>
             ctl_tag c = INPUT \<and>
             ctl_type c = Some (or_else (f_type field) ''text'') \<and>
             is_text_input c =
               (map ascii_lower (or_else (f_type field) ''text'') \<notin> set input_kinds - {''text''})"
proof -
  from assms(1) have t: "f_type field \<noteq> Some ''textarea''" "f_type field \<noteq> Some ''select''"
    by (auto simp: recognized_type_def)
  show ?thesis
    using assms(2) is_text_input_iff
    by (simp add: createField_allowed buildInput_other [OF t] createControl_def)
qed

text \<open>
  An instance: the type \<^verbatim>\<open>rating\<close> is no input kind, and the control is a text input.
\<close>

theorem C3_type_passthrough_witness:
  "\<not> recognized_type (f_type (ex_typed_field ''rating'')) \<and>
   \<not> permission_denied (ex_typed_field ''rating'') ''user'' \<and>
   (\<exists>c. fe_control (createField (ex_typed_field ''rating'') ''user'') = Some c \<and>
        ctl_tag c = INPUT \<and> ctl_type c = Some ''rating'' \<and> is_text_input c)"
proof -
  have h1: "\<not> recognized_type (f_type (ex_typed_field ''rating''))"
    by (simp add: ex_typed_field_def recognized_type_def)
  have h2: "\<not> permission_denied (ex_typed_field ''rating'') ''user''"
    by (simp add: ex_typed_field_def permission_denied_def)
  have "or_else (f_type (ex_typed_field ''rating'')) ''text'' = ''rating''"
    by (simp add: ex_typed_field_def or_else_def)
  moreover have "map ascii_lower ''rating'' \<notin> set input_kinds - {''text''}"
    by (simp add: input_kinds_def ascii_lower_def)
  ultimately show ?thesis
    using h1 h2 C3_type_passthrough [OF h1 h2] by auto
qed

text \<open>
  The claim as the specification words it fails: the type \<^verbatim>\<open>checkbox\<close> is not one of
  the five variants, and the control built for it is a checkbox, not a text input.
\<close>

theorem C3_counterexample:
  "\<not> recognized_type (f_type (ex_typed_field ''checkbox'')) \<and>
   map_option ctl_tag (fe_control (createField (ex_typed_field ''checkbox'') ''user'')) = Some INPUT \<and>
   map_option ctl_type (fe_control (createField (ex_typed_field ''checkbox'') ''user''))
     = Some (Some ''checkbox'') \<and>
   map_option is_text_input (fe_control (createField (ex_typed_field ''checkbox'') ''user''))
     = Some False"
  by (simp add: ex_typed_field_def recognized_type_def createField_def permission_denied_def
      buildInput_def set_type_def createControl_def or_else_def truthy_def is_text_input_def
      input_type_state_def input_kinds_def ascii_lower_def)

section \<open>The permission filter\<close>

text \<open>
  Claim C4.  \<^verbatim>\<open>createField\<close> yields the inert placeholder if and only if the field has
  a \<^verbatim>\<open>permissions\<close> object whose role set does not contain the role; membership is
  equality of strings, so roles that differ in case differ.  The placeholder is the
  one outcome without a control, and a field without \<^verbatim>\<open>permissions\<close> always gets its
  control.
\<close>

theorem C4_permission_filter:
  "(is_placeholder (createField field userRole) =
      (\<exists>p. f_permissions field = Some p \<and> userRole \<notin> role_set p)) \<and>
   (fe_control (createField field userRole) = None) = is_placeholder (createField field userRole) \<and>
   (f_permissions field = None \<longrightarrow> fe_control (createField field userRole) \<noteq> None)"
proof (cases "permission_denied field userRole")
  case True
  then show ?thesis
    using permission_denied_iff [of field userRole]
    by (auto simp: createField_denied is_placeholder_def)
next
  case False
  then show ?thesis
    using permission_denied_iff [of field userRole]
    by (auto simp: createField_allowed is_placeholder_def)
qed

text \<open>
  An instance: a field for \<^verbatim>\<open>admin\<close> is suppressed for \<^verbatim>\<open>user\<close> and for \<^verbatim>\<open>Admin\<close>,
  rendered for \<^verbatim>\<open>admin\<close>, and rendered for everyone once its permissions are removed.
\<close>

theorem C4_permission_filter_witness:
  "is_placeholder (createField ex_admin_field ''user'') \<and>
   is_placeholder (createField ex_admin_field ''Admin'') \<and>
   \<not> is_placeholder (createField ex_admin_field ''admin'') \<and>
   fe_control (createField (ex_admin_field\<lparr>f_permissions := None\<rparr>) ''user'') \<noteq> None"
  using C4_permission_filter [of ex_admin_field "''user''"]
    C4_permission_filter [of ex_admin_field "''Admin''"]
    C4_permission_filter [of ex_admin_field "''admin''"]
    C4_permission_filter [of "ex_admin_field\<lparr>f_permissions := None\<rparr>" "''user''"]
  by (simp add: ex_admin_field_def role_set_def)

section \<open>A submit of an invalid form\<close>




section \<open>The round trip of a valid submission\<close>




section \<open>A suppressed field is not in the snapshot\<close>



section \<open>The text of the headings\<close>



section \<open>A failed configuration request\<close>

text \<open>
  Claim C9, as the code has it.  The request for the configuration fails in one of two
  ways.  When it is answered by a response that is not ok, \<^verbatim>\<open>loadConfig\<close> logs the
  failure with \<^verbatim>\<open>console.error\<close> and yields \<^verbatim>\<open>null\<close>.  When the request itself fails,
  the promise of \<^verbatim>\<open>fetch\<close> is rejected; \<^verbatim>\<open>loadConfig\<close> has no handler for it, its own
  promise is rejected, and the program logs nothing.  In both cases the listener of
  \<^verbatim>\<open>DOMContentLoaded\<close> leaves the page as it was but for that console entry: nothing is
  rendered, no listener is attached, and nothing is shown to the user.
\<close>

theorem C9_config_fetch_failure:
  assumes "fetch (configFile params) = Rejected \<or>
           (\<exists>response. fetch (configFile params) = Fulfilled response \<and> \<not> rs_ok response)"
  shows "loadConfig params fetch (pg_console st) =
           (case fetch (configFile params) of
              Rejected \<Rightarrow> (Rejected, pg_console st)
            | Fulfilled response \<Rightarrow>
                (Fulfilled None,
                 pg_console st @ [ConsoleError ''Failed to load config'' (rs_statusText response)])) \<and>
         onDOMContentLoaded params fetch st =
           st\<lparr>pg_console := snd (loadConfig params fetch (pg_console st))\<rparr> \<and>
         pg_form (onDOMContentLoaded params fetch st) = pg_form st \<and>
         pg_metadata (onDOMContentLoaded params fetch st) = pg_metadata st \<and>
         pg_output_classes (onDOMContentLoaded params fetch st) = pg_output_classes st \<and>
         pg_output_json (onDOMContentLoaded params fetch st) = pg_output_json st \<and>
         pg_submit_listener (onDOMContentLoaded params fetch st) = pg_submit_listener st \<and>
         pg_change_listeners (onDOMContentLoaded params fetch st) = pg_change_listeners st"
  using assms by (auto simp: onDOMContentLoaded_def loadConfig_def Let_def)

text \<open>
  Two instances: the host page after a request answered with 404, where the failure
  is logged, and after a request that failed on the network, where the page is
  exactly as before.
\<close>

theorem C9_config_fetch_failure_witness:
  "onDOMContentLoaded no_query ex_fetch_404 host_page =
     host_page\<lparr>pg_console := [ConsoleError ''Failed to load config'' ''Not Found'']\<rparr> \<and>
   pg_form (onDOMContentLoaded no_query ex_fetch_404 host_page) = [] \<and>
   onDOMContentLoaded no_query ex_fetch_failed host_page = host_page"
  using C9_config_fetch_failure [of ex_fetch_404 no_query host_page]
    C9_config_fetch_failure [of ex_fetch_failed no_query host_page]
  by (simp add: ex_fetch_404_def ex_fetch_failed_def host_page_def)

text \<open>
  The claim as the specification words it fails: when the request fails on the
  network, nothing is rendered, but the failure is not logged; the console is as empty
  as before.
\<close>

theorem C9_counterexample:
  "ex_fetch_failed (configFile no_query) = Rejected \<and>
   fst (loadConfig no_query ex_fetch_failed (pg_console host_page)) = Rejected \<and>
   pg_console host_page = [] \<and>
   pg_console (onDOMContentLoaded no_query ex_fetch_failed host_page) = [] \<and>
   pg_form (onDOMContentLoaded no_query ex_fetch_failed host_page) = []"
  by (simp add: ex_fetch_failed_def onDOMContentLoaded_def loadConfig_def Let_def host_page_def)

section \<open>A dependent field whose controller is suppressed\<close>

text \<open>
  Claim C10 at a form whose suppressed controller has the id \<^verbatim>\<open>constructor\<close>.  The
  first field is a placeholder, no control carries the name \<^verbatim>\<open>constructor\<close>, and yet
  the dependent field is hidden at mount: \<^verbatim>\<open>fieldMap['constructor']\<close> is the function
  that every object inherits, the guard \<^verbatim>\<open>if (!controller) return\<close> does not fire, and
  \<^verbatim>\<open>controller.value\<close> is \<^verbatim>\<open>undefined\<close>.  With the id \<^verbatim>\<open>reviewer\<close> in its place the
  dependent field stays shown (\<open>missing_controller_unchanged\<close>), as the claim says.
\<close>

theorem C10_inherited_member:
  "map is_placeholder
     (form_fields (pg_form (renderForm (ex_suppressed_controller ''constructor'') no_query host_page)))
     = [True, False] \<and>
   controller_of (pg_form (renderForm (ex_suppressed_controller ''constructor'') no_query host_page))
     ''constructor'' = None \<and>
   map fe_display
     (form_fields (pg_form (renderForm (ex_suppressed_controller ''constructor'') no_query host_page)))
     = ['''', ''none''] \<and>
   map fe_display
     (form_fields (pg_form (renderForm (ex_suppressed_controller ''reviewer'') no_query host_page)))
     = ['''', '''']"
  by code_simp

end
